theory Spec2Isabelle
  imports Complex_Main "HOL-Library.Stream" "HOL-Library.Sublist"
begin

section \<open>The dice service of the RPG companion\<close>

text \<open>
  The development embeds the dice-expression parser and the roll evaluator of
  \<^verbatim>\<open>DiceService\<close> together with \<^verbatim>\<open>CharacterService.calculateModifier\<close>.

  Conventions of the embedding:
  \<^item> The numbers that come from the text of an expression, and the sums that
    contain them, have no bound. They are values of the type \<open>number\<close>: an
    integer that a double holds, an infinity or \<^verbatim>\<open>NaN\<close>. \<^verbatim>\<open>parseInt\<close> and the
    addition round as double precision does.
  \<^item> The count and the sides of a parsed expression, the faces of the dice and
    the scores and bonuses of a character are \<^typ>\<open>int\<close>: the code holds them
    far below \<open>2^53\<close>, where a double is the integer itself.
  \<^item> A string is a \<^typ>\<open>string\<close>, read as UTF-8 bytes: every character the two
    grammars accept is ASCII, and the arrow of the trace text is three bytes.
  \<^item> The random source is a stream of the values that successive calls of
    \<^verbatim>\<open>secureRandom\<close> return; every function that rolls takes the stream and returns
    what is left of it.
    A value is a real number; the product with the number of sides is rounded
    to a double before its floor is taken.
  \<^item> \<^verbatim>\<open>Date.now()\<close> is an argument of the evaluator.
  \<^item> An optional field is an \<^typ>\<open>'a option\<close>; a thrown \<^verbatim>\<open>Error\<close> is the left
    summand of the result.
\<close>

subsection \<open>Data model\<close>

text \<open>
  The keys of \<^verbatim>\<open>Character['basicAttributes']\<close>; the prefix keeps them apart from
  the notation of the library.
\<close>

datatype attribute = A_STR | A_DEX | A_CON | A_INT | A_WIS | A_CHA

text \<open>
  \<^verbatim>\<open>basicAttributes\<close> has one number for each key, so it is a function from the
  keys; \<^verbatim>\<open>basicAttributes[k]\<close> is application.
\<close>

type_synonym basicAttributes = "attribute \<Rightarrow> int"

record resources =
  level :: int
  HP :: int
  maxHP :: int
  AC :: int
  meleeAtkBonus :: int
  rangedAtkBonus :: int
  spellcastingBonus :: int
  luck :: bool

text \<open>
  Of a \<^verbatim>\<open>Character\<close> the dice service reads \<^verbatim>\<open>basicAttributes\<close> and
  \<^verbatim>\<open>resources\<close> only; the identifiers, the descriptive texts and the inventory
  lists are left out.
\<close>

record character =
  basicAttributes :: basicAttributes
  resources :: resources

text \<open>
  A JavaScript number that is an integer, an infinity or \<^verbatim>\<open>NaN\<close>. The integer
  of \<open>Finite\<close> is one that a double holds; plus and minus zero are the one
  value \<open>Finite 0\<close> (the code never tells them apart).
\<close>

datatype number = Finite int | PosInfinity | NegInfinity | NaN

text \<open>
  \<^verbatim>\<open>DiceExpression\<close>. The parser never sets the optional fields
  \<^verbatim>\<open>advantage\<close>, \<^verbatim>\<open>disadvantage\<close> and \<^verbatim>\<open>description\<close> of the interface and
  nothing reads them, so the record has the four fields the parser returns.
\<close>

record DiceExpression =
  count :: int
  sides :: int
  modifier :: number
  attributeBonus :: "attribute option"

text \<open>One element of \<^verbatim>\<open>DiceResult['rolls']\<close>.\<close>

record roll =
  die :: int
  result :: int
  isMax :: bool
  isMin :: bool

text \<open>
  One element of \<^verbatim>\<open>DiceResult['modifiers']\<close>: the fields \<^verbatim>\<open>name\<close> and
  \<^verbatim>\<open>value\<close> of the source (the latter is \<open>amount\<close> here).
\<close>

record modifier_entry =
  name :: string
  amount :: number

text \<open>
  \<^verbatim>\<open>DiceResult\<close>; its field \<^verbatim>\<open>expression\<close> is \<open>res_expression\<close> here, the field
  of the same name of the request keeps the name.
\<close>

record DiceResult =
  res_expression :: string
  rolls :: "roll list"
  modifiers :: "modifier_entry list"
  total :: number
  details :: string
  timestamp :: int

record RollRequest =
  expression :: string
  character :: "character option"
  advantage :: "bool option"
  disadvantage :: "bool option"
  description :: "string option"

datatype error = Error string

type_synonym rng = "real stream"

subsection \<open>Strings and numbers\<close>

definition is_digit :: "char \<Rightarrow> bool" where
  "is_digit c = (c \<in> set ''0123456789'')"

definition is_sign :: "char \<Rightarrow> bool" where
  "is_sign c = (c = CHR ''+'' \<or> c = CHR ''-'')"

text \<open>
  \<^verbatim>\<open>toLowerCase\<close> and \<^verbatim>\<open>toUpperCase\<close> on the ASCII letters. A character outside
  ASCII never becomes one that the grammars accept (the only lower-case images in
  ASCII are \<open>k\<close>, of the Kelvin sign, and \<open>i\<close> followed by a combining dot), so
  its bytes are left as they are.
\<close>

definition lower_char :: "char \<Rightarrow> char" where
  "lower_char c =
     (let n = (of_char c :: nat) in if 65 \<le> n \<and> n \<le> 90 then char_of (n + 32) else c)"

definition upper_char :: "char \<Rightarrow> char" where
  "upper_char c =
     (let n = (of_char c :: nat) in if 97 \<le> n \<and> n \<le> 122 then char_of (n - 32) else c)"

definition toLowerCase :: "string \<Rightarrow> string" where
  "toLowerCase s = map lower_char s"

definition toUpperCase :: "string \<Rightarrow> string" where
  "toUpperCase s = map upper_char s"

text \<open>
  The class \<^verbatim>\<open>\s\<close> of a JavaScript regular expression: the six ASCII white-space
  characters, and in UTF-8 the no-break space U+00A0 (two bytes) and U+1680,
  U+2000 to U+200A, U+2028, U+2029, U+202F, U+205F, U+3000 and U+FEFF (three
  bytes each). \<open>ws_len s\<close> is the number of bytes of the white-space character
  that \<open>s\<close> starts with, and 0 when it starts with none.
\<close>

definition ascii_ws :: "char \<Rightarrow> bool" where
  "ascii_ws c = (c \<in> {CHR 0x09, CHR 0x0A, CHR 0x0B, CHR 0x0C, CHR 0x0D, CHR 0x20})"

definition ws3 :: "char \<Rightarrow> char \<Rightarrow> char \<Rightarrow> bool" where
  "ws3 a b c =
     ((a = CHR 0xE1 \<and> b = CHR 0x9A \<and> c = CHR 0x80) \<or>
      (a = CHR 0xE2 \<and> b = CHR 0x80 \<and>
         ((0x80 \<le> (of_char c :: nat) \<and> (of_char c :: nat) \<le> 0x8A) \<or>
          c = CHR 0xA8 \<or> c = CHR 0xA9 \<or> c = CHR 0xAF)) \<or>
      (a = CHR 0xE2 \<and> b = CHR 0x81 \<and> c = CHR 0x9F) \<or>
      (a = CHR 0xE3 \<and> b = CHR 0x80 \<and> c = CHR 0x80) \<or>
      (a = CHR 0xEF \<and> b = CHR 0xBB \<and> c = CHR 0xBF))"

fun ws_len :: "string \<Rightarrow> nat" where
  "ws_len [] = 0"
| "ws_len [a] = (if ascii_ws a then 1 else 0)"
| "ws_len [a, b] = (if ascii_ws a then 1 else if a = CHR 0xC2 \<and> b = CHR 0xA0 then 2 else 0)"
| "ws_len (a # b # c # _) =
     (if ascii_ws a then 1 else if a = CHR 0xC2 \<and> b = CHR 0xA0 then 2
      else if ws3 a b c then 3 else 0)"

text \<open>\<^verbatim>\<open>s.replace(/\s+/g, '')\<close>: every white-space character is dropped.\<close>

function remove_whitespace :: "string \<Rightarrow> string" where
  "remove_whitespace [] = []"
| "remove_whitespace (c # cs) =
     (if ws_len (c # cs) = 0 then c # remove_whitespace cs
      else remove_whitespace (drop (ws_len (c # cs)) (c # cs)))"
  by pat_completeness auto
termination
  by (relation "measure length") auto

text \<open>The value of a string of decimal digits, most significant digit first.\<close>

definition digit_val :: "char \<Rightarrow> int" where
  "digit_val c = of_char c - 48"

definition digits_value :: "string \<Rightarrow> int" where
  "digits_value ds = foldl (\<lambda>acc c. 10 * acc + digit_val c) 0 ds"

text \<open>
  The double nearest to an integer that is not negative: below \<open>2^53\<close> the
  integer itself, above it the integer rounded to 53 significant bits, a tie
  going to the even significand. \<open>bit_length n\<close> is the number of binary digits
  of \<open>n\<close>.
\<close>

function bit_length :: "int \<Rightarrow> nat" where
  "bit_length n = (if n \<le> 0 then 0 else Suc (bit_length (n div 2)))"
  by pat_completeness auto
termination
  by (relation "measure nat") auto

definition round53 :: "int \<Rightarrow> int" where
  "round53 n =
     (if n < 2 ^ 53 then n
      else (let sh = bit_length n - 53; q = n div 2 ^ sh; r = n mod 2 ^ sh;
                half = 2 ^ (sh - 1)
            in (if half < r \<or> (r = half \<and> odd q) then q + 1 else q) * 2 ^ sh))"

text \<open>
  The Number value of an integer: the nearest double, and an infinity when that
  is \<open>2^1024\<close> or more.
\<close>

definition to_number :: "int \<Rightarrow> number" where
  "to_number i =
     (let r = round53 \<bar>i\<bar> in
      if 2 ^ 1024 \<le> r then (if i < 0 then NegInfinity else PosInfinity)
      else Finite (if i < 0 then - r else r))"

text \<open>The operator \<^verbatim>\<open>+\<close> on two numbers.\<close>

fun dadd :: "number \<Rightarrow> number \<Rightarrow> number" where
  "dadd (Finite a) (Finite b) = to_number (a + b)"
| "dadd NaN _ = NaN"
| "dadd _ NaN = NaN"
| "dadd PosInfinity NegInfinity = NaN"
| "dadd NegInfinity PosInfinity = NaN"
| "dadd PosInfinity _ = PosInfinity"
| "dadd _ PosInfinity = PosInfinity"
| "dadd NegInfinity _ = NegInfinity"
| "dadd _ NegInfinity = NegInfinity"

text \<open>The comparison \<^verbatim>\<open>v >= 0\<close>, false on \<^verbatim>\<open>NaN\<close>.\<close>

fun at_least_zero :: "number \<Rightarrow> bool" where
  "at_least_zero (Finite i) = (0 \<le> i)"
| "at_least_zero PosInfinity = True"
| "at_least_zero NegInfinity = False"
| "at_least_zero NaN = False"

text \<open>
  \<^verbatim>\<open>parseInt\<close> on the strings the grammars hand to it: an optional sign, then the
  longest run of decimal digits; \<^verbatim>\<open>NaN\<close> when there is no digit, and otherwise
  the Number value of the integer that the digits write. (The language lets an
  implementation replace the digits after the twentieth by zeros before it
  rounds; here, as in the common engines, all digits count.)
\<close>

definition parseInt :: "string \<Rightarrow> number" where
  "parseInt s =
     (let neg = (case s of [] \<Rightarrow> False | c # _ \<Rightarrow> c = CHR ''-'');
          r = (case s of [] \<Rightarrow> [] | c # cs \<Rightarrow> if is_sign c then cs else s);
          ds = takeWhile is_digit r
      in if ds = [] then NaN
         else to_number (if neg then - digits_value ds else digits_value ds))"

text \<open>
  The decimal digits of an integer, with a minus sign when it is negative. This
  is the template-literal conversion of an integer below \<open>2^53\<close> in magnitude:
  of the count, the sides and the faces of the dice and of the bonuses of a
  character.
\<close>

definition digit_char :: "nat \<Rightarrow> char" where
  "digit_char k = char_of (48 + k)"

fun decimal_nat :: "nat \<Rightarrow> string" where
  "decimal_nat n =
     (if n < 10 then [digit_char n] else decimal_nat (n div 10) @ [digit_char (n mod 10)])"

definition number_text :: "int \<Rightarrow> string" where
  "number_text i = (if i < 0 then CHR ''-'' # decimal_nat (nat (- i)) else decimal_nat (nat i))"

text \<open>
  Template-literal conversion of a number. From \<open>2^53\<close> on the text holds the
  fewest digits \<open>s\<close>, with a decimal exponent \<open>j\<close>, such that \<open>s * 10^j\<close> reads
  back as the same double; of two such \<open>s\<close> the one nearer to the number is
  taken, the even one on a tie. The digits are followed by \<open>j\<close> zeros when that
  gives at most 21 digits, and written with an exponent otherwise.
\<close>

definition reads_back :: "int \<Rightarrow> nat \<Rightarrow> nat \<Rightarrow> int \<Rightarrow> bool" where
  "reads_back v k j s = (10 ^ (k - 1) \<le> s \<and> s < 10 ^ k \<and> round53 (s * 10 ^ j) = v)"

definition nearer :: "int \<Rightarrow> int \<times> nat \<Rightarrow> int \<times> nat \<Rightarrow> bool" where
  "nearer v a b =
     (let da = \<bar>fst a * 10 ^ snd a - v\<bar>; db = \<bar>fst b * 10 ^ snd b - v\<bar>
      in da < db \<or> (da = db \<and> even (fst a)))"

definition candidates :: "int \<Rightarrow> nat \<Rightarrow> (int \<times> nat) list" where
  "candidates v k =
     (let n = length (number_text v) in
      filter (\<lambda>(s, j). reads_back v k j s)
        (concat (map (\<lambda>j. [(v div 10 ^ j, j), (v div 10 ^ j + 1, j)])
                   [n - k, n + 1 - k])))"

fun best :: "int \<Rightarrow> (int \<times> nat) list \<Rightarrow> (int \<times> nat) option" where
  "best v [] = None"
| "best v (c # cs) =
     (case best v cs of None \<Rightarrow> Some c
      | Some d \<Rightarrow> if nearer v c d then Some c else Some d)"

fun shortest :: "int \<Rightarrow> nat list \<Rightarrow> (int \<times> nat \<times> nat) option" where
  "shortest v [] = None"
| "shortest v (k # ks) =
     (case best v (candidates v k) of
        Some (s, j) \<Rightarrow> Some (s, k, j)
      | None \<Rightarrow> shortest v ks)"

definition large_text :: "int \<Rightarrow> string" where
  "large_text v =
     (case shortest v [1 ..< 18] of
        None \<Rightarrow> number_text v
      | Some (s, k, j) \<Rightarrow>
          if k + j \<le> 21 then number_text s @ replicate j CHR ''0''
          else (let ds = number_text s in
                take 1 ds @ (if k = 1 then [] else CHR ''.'' # drop 1 ds) @
                ''e+'' @ decimal_nat (k + j - 1)))"

definition magnitude_text :: "int \<Rightarrow> string" where
  "magnitude_text v = (if v < 2 ^ 53 then number_text v else large_text v)"

fun toString :: "number \<Rightarrow> string" where
  "toString NaN = ''NaN''"
| "toString PosInfinity = ''Infinity''"
| "toString NegInfinity = ''-Infinity''"
| "toString (Finite i) = (if i < 0 then CHR ''-'' # magnitude_text (- i) else magnitude_text i)"

text \<open>\<^verbatim>\<open>Array.prototype.join\<close>.\<close>

fun join :: "string \<Rightarrow> string list \<Rightarrow> string" where
  "join sep [] = []"
| "join sep [x] = x"
| "join sep (x # y # ys) = x @ sep @ join sep (y # ys)"

text \<open>The arrow U+2192 of the trace text, in UTF-8.\<close>

definition arrow :: string where
  "arrow = [CHR 0xE2, CHR 0x86, CHR 0x92]"

subsection \<open>The parser\<close>

text \<open>
  A signed integer \<^verbatim>\<open>[+-]\d+\<close> that fills the whole string: the optional last
  group of both grammars, followed by the end of the input.
\<close>

definition signed_digits :: "string \<Rightarrow> bool" where
  "signed_digits s =
     (case s of [] \<Rightarrow> False | c # ds \<Rightarrow> is_sign c \<and> ds \<noteq> [] \<and> list_all is_digit ds)"

text \<open>
  \<^verbatim>\<open>cleaned.match(/^(\d*)d(\d+)([+-]\d+)?$/)\<close>. No digit is a \<open>d\<close> or a sign, so
  each run of digits is the longest one and the match needs no backtracking. The
  result holds the three groups; the third is \<^term>\<open>None\<close> when it did not
  take part.
\<close>

definition basicMatch :: "string \<Rightarrow> (string \<times> string \<times> string option) option" where
  "basicMatch s =
     (let g1 = takeWhile is_digit s in
      case dropWhile is_digit s of
        [] \<Rightarrow> None
      | c # r \<Rightarrow>
          if c = CHR ''d'' then
            (let g2 = takeWhile is_digit r; t = dropWhile is_digit r in
             if g2 = [] then None
             else if t = [] then Some (g1, g2, None)
             else if signed_digits t then Some (g1, g2, Some t)
             else None)
          else None)"

text \<open>The alternatives of \<^verbatim>\<open>(?:str|dex|con|int|wis|cha)\<close>.\<close>

definition attribute_tokens :: "string list" where
  "attribute_tokens = [''str'', ''dex'', ''con'', ''int'', ''wis'', ''cha'']"

text \<open>
  \<^verbatim>\<open>cleaned.match(/^(\d*)d(\d+)([+-](?:str|dex|con|int|wis|cha))?([+-]\d+)?$/)\<close>.
  After the die a sign followed by one of the six tokens is the third group (a
  signed integer cannot start there, since a token starts with a letter); what
  follows is the end of the input or the fourth group.
\<close>

definition complexMatch ::
  "string \<Rightarrow> (string \<times> string \<times> string option \<times> string option) option" where
  "complexMatch s =
     (let g1 = takeWhile is_digit s in
      case dropWhile is_digit s of
        [] \<Rightarrow> None
      | c # r \<Rightarrow>
          if c = CHR ''d'' then
            (let g2 = takeWhile is_digit r; t = dropWhile is_digit r;
                 has_attr = (case t of [] \<Rightarrow> False
                             | x # xs \<Rightarrow> is_sign x \<and> take 3 xs \<in> set attribute_tokens);
                 g3 = (if has_attr then Some (take 4 t) else None);
                 u = (if has_attr then drop 4 t else t)
             in
             if g2 = [] then None
             else if u = [] then Some (g1, g2, g3, None)
             else if signed_digits u then Some (g1, g2, g3, Some u)
             else None)
          else None)"

text \<open>
  \<^verbatim>\<open>['STR', 'DEX', 'CON', 'INT', 'WIS', 'CHA'].includes(attr)\<close>, returning the key.
\<close>

definition attribute_names :: "(string \<times> attribute) list" where
  "attribute_names =
     [(''STR'', A_STR), (''DEX'', A_DEX), (''CON'', A_CON), (''INT'', A_INT), (''WIS'', A_WIS), (''CHA'', A_CHA)]"

definition attribute_of_name :: "string \<Rightarrow> attribute option" where
  "attribute_of_name s = map_of attribute_names s"

fun attribute_name :: "attribute \<Rightarrow> string" where
  "attribute_name A_STR = ''STR''"
| "attribute_name A_DEX = ''DEX''"
| "attribute_name A_CON = ''CON''"
| "attribute_name A_INT = ''INT''"
| "attribute_name A_WIS = ''WIS''"
| "attribute_name A_CHA = ''CHA''"

text \<open>\<^verbatim>\<open>parseInt(group) || 1\<close>: \<^verbatim>\<open>NaN\<close> and \<open>0\<close> are falsy.\<close>

definition or_one :: "number \<Rightarrow> number" where
  "or_one v = (if v = NaN \<or> v = Finite 0 then Finite 1 else v)"

text \<open>\<^verbatim>\<open>group ? parseInt(group) : 0\<close>.\<close>

definition parse_modifier :: "string option \<Rightarrow> number" where
  "parse_modifier g = (case g of None \<Rightarrow> Finite 0 | Some m \<Rightarrow> parseInt m)"

text \<open>\<^verbatim>\<open>count > 0 && count <= 100 && sides > 0 && sides <= 1000\<close>.\<close>

definition in_bounds :: "int \<Rightarrow> int \<Rightarrow> bool" where
  "in_bounds c s = (c > 0 \<and> c \<le> 100 \<and> s > 0 \<and> s \<le> 1000)"

text \<open>
  The two branches of \<^verbatim>\<open>parseDiceExpression\<close>. A branch yields \<^term>\<open>None\<close> when
  the source falls through it. The bounds check is false when the count or the
  sides is \<^verbatim>\<open>NaN\<close> or an infinity, so the count and the sides of a returned
  expression are integers.
\<close>

definition parse_basic :: "string \<Rightarrow> DiceExpression option" where
  "parse_basic cleaned =
     (case basicMatch cleaned of
        None \<Rightarrow> None
      | Some (g1, g2, g3) \<Rightarrow>
          (case (or_one (parseInt g1), parseInt g2) of
             (Finite c, Finite s) \<Rightarrow>
               if in_bounds c s
               then Some \<lparr>count = c, sides = s, modifier = parse_modifier g3,
                          attributeBonus = None\<rparr>
               else None
           | _ \<Rightarrow> None))"

definition parse_complex :: "string \<Rightarrow> DiceExpression option" where
  "parse_complex cleaned =
     (case complexMatch cleaned of
        None \<Rightarrow> None
      | Some (g1, g2, attributeMatch, g4) \<Rightarrow>
          (case (or_one (parseInt g1), parseInt g2) of
             (Finite c, Finite s) \<Rightarrow>
               (let numericModifier = parse_modifier g4;
                    bonus = (case attributeMatch of
                               None \<Rightarrow> None
                             | Some a \<Rightarrow> attribute_of_name (toUpperCase (drop 1 a)))
                in
                if in_bounds c s
                then Some \<lparr>count = c, sides = s, modifier = numericModifier,
                           attributeBonus = bonus\<rparr>
                else None)
           | _ \<Rightarrow> None))"

definition parseDiceExpression :: "string \<Rightarrow> DiceExpression option" where
  "parseDiceExpression e =
     (let cleaned = remove_whitespace (toLowerCase e) in
      case parse_basic cleaned of
        Some p \<Rightarrow> Some p
      | None \<Rightarrow> parse_complex cleaned)"

definition isValidExpression :: "string \<Rightarrow> bool" where
  "isValidExpression e = (parseDiceExpression e \<noteq> None)"

subsection \<open>Rolling\<close>

text \<open>
  \<^verbatim>\<open>secureRandom\<close> takes the next value of the source, whichever generator
  produced it.
\<close>

definition secureRandom :: "rng \<Rightarrow> real \<times> rng" where
  "secureRandom g = (shd g, stl g)"

text \<open>
  The value of its first branch, \<^verbatim>\<open>array[0] / (0xffffffff + 1)\<close>, for the
  unsigned 32-bit number \<open>k mod 2 ^ 32\<close> that \<^verbatim>\<open>crypto.getRandomValues\<close> stores.
  The quotient is exact in double precision.
\<close>

definition crypto_value :: "nat \<Rightarrow> real" where
  "crypto_value k = real (k mod 2 ^ 32) / (0xffffffff + 1)"

text \<open>
  The double nearest to a real number below \<open>2^1024\<close> in magnitude, a tie going
  to the even significand: the real number is divided by the distance \<open>ulp\<close> of
  the doubles around it, which is \<open>2^(e - 52)\<close> for a number from \<open>2^e\<close> up to
  \<open>2^(e + 1)\<close> and \<open>2^(- 1074)\<close> below \<open>2^(- 1022)\<close>, and the quotient is rounded to
  an integer.
\<close>

definition round_even :: "real \<Rightarrow> int" where
  "round_even q =
     (let f = \<lfloor>q\<rfloor>; d = q - of_int f in
      if d < 1 / 2 then f else if 1 / 2 < d then f + 1 else if even f then f else f + 1)"

definition binade :: "real \<Rightarrow> int" where
  "binade x = max \<lfloor>log 2 \<bar>x\<bar>\<rfloor> (- 1022)"

definition ulp :: "real \<Rightarrow> real" where
  "ulp x = 2 powr of_int (binade x - 52)"

definition fl :: "real \<Rightarrow> real" where
  "fl x = (if x = 0 then 0 else of_int (round_even (x / ulp x)) * ulp x)"

text \<open>
  \<^verbatim>\<open>Math.floor(this.secureRandom() * sides) + 1\<close>: the product of two doubles is
  the double nearest to the product of the real numbers. The floor of a double
  is exact, and so is the sum with 1 for a value of the source below 1.
\<close>

definition rollDie :: "int \<Rightarrow> rng \<Rightarrow> int \<times> rng" where
  "rollDie s g = (case secureRandom g of (u, g') \<Rightarrow> (\<lfloor>fl (u * of_int s)\<rfloor> + 1, g'))"

text \<open>
  The helpers return the object \<^verbatim>\<open>{ result, details }\<close>, here the pair of the
  kept value and the text \<^verbatim>\<open>(roll1, roll2)\<close>.
\<close>

definition pair_text :: "int \<Rightarrow> int \<Rightarrow> string" where
  "pair_text roll1 roll2 = ''('' @ number_text roll1 @ '', '' @ number_text roll2 @ '')''"

definition rollWithAdvantage :: "int \<Rightarrow> rng \<Rightarrow> (int \<times> string) \<times> rng" where
  "rollWithAdvantage s g =
     (case rollDie s g of (roll1, g1) \<Rightarrow>
      case rollDie s g1 of (roll2, g2) \<Rightarrow>
        ((max roll1 roll2, pair_text roll1 roll2), g2))"

definition rollWithDisadvantage :: "int \<Rightarrow> rng \<Rightarrow> (int \<times> string) \<times> rng" where
  "rollWithDisadvantage s g =
     (case rollDie s g of (roll1, g1) \<Rightarrow>
      case rollDie s g1 of (roll2, g2) \<Rightarrow>
        ((min roll1 roll2, pair_text roll1 roll2), g2))"

text \<open>\<^verbatim>\<open>CharacterService.calculateModifier\<close>: \<^verbatim>\<open>Math.floor((attributeValue - 10) / 2)\<close>.\<close>

definition calculateModifier :: "int \<Rightarrow> int" where
  "calculateModifier attributeValue = \<lfloor>(of_int attributeValue - 10) / (2 :: real)\<rfloor>"

subsection \<open>The evaluator\<close>

text \<open>A flag of the request is truthy when it is present and true.\<close>

definition truthy :: "bool option \<Rightarrow> bool" where
  "truthy b = (b = Some True)"

text \<open>The object pushed on \<^verbatim>\<open>rolls\<close> for a die of \<open>s\<close> sides that shows \<open>r\<close>.\<close>

definition roll_entry :: "int \<Rightarrow> int \<Rightarrow> roll" where
  "roll_entry s r = \<lparr>die = s, result = r, isMax = (r = s), isMin = (r = 1)\<rparr>"

text \<open>
  The loop \<^verbatim>\<open>for (let i = 0; i < parsed.count; i++)\<close> with the variables it
  changes: the index, \<^verbatim>\<open>rolls\<close>, \<^verbatim>\<open>total\<close> and the random source.
\<close>

function normal_rolls ::
  "DiceExpression \<Rightarrow> int \<Rightarrow> roll list \<Rightarrow> number \<Rightarrow> rng \<Rightarrow> roll list \<times> number \<times> rng"
  where
  "normal_rolls parsed i rs t g =
     (if i < count parsed then
        (case rollDie (sides parsed) g of
           (r, g') \<Rightarrow>
             normal_rolls parsed (i + 1) (rs @ [roll_entry (sides parsed) r])
               (dadd t (Finite r)) g')
      else (rs, t, g))"
  by pat_completeness auto
termination
  by (relation "measure (\<lambda>(parsed, i, rs, t, g). nat (count parsed - i))") auto

text \<open>
  The first block of \<^verbatim>\<open>rollDice\<close> after parsing: \<^verbatim>\<open>rolls\<close>, \<^verbatim>\<open>total\<close> and the
  source after the dice are rolled. The text that the two helpers return is not
  used by \<^verbatim>\<open>rollDice\<close>.
\<close>

definition roll_phase ::
  "DiceExpression \<Rightarrow> bool \<Rightarrow> bool \<Rightarrow> rng \<Rightarrow> roll list \<times> number \<times> rng" where
  "roll_phase parsed hasAdvantage hasDisadvantage g =
     (if hasAdvantage \<or> hasDisadvantage then
        (case (if hasAdvantage then rollWithAdvantage (sides parsed) g
               else rollWithDisadvantage (sides parsed) g) of
           (rollResult, g') \<Rightarrow>
             ([roll_entry (sides parsed) (fst rollResult)],
              dadd (Finite 0) (Finite (fst rollResult)), g'))
      else normal_rolls parsed 0 [] (Finite 0) g)"

text \<open>
  The three blocks that push on \<^verbatim>\<open>modifiers\<close> and add to \<^verbatim>\<open>total\<close>. The
  attribute bonus and the luck bonus are integers.
\<close>

definition numeric_modifier ::
  "DiceExpression \<Rightarrow> modifier_entry list \<times> number \<Rightarrow> modifier_entry list \<times> number"
  where
  "numeric_modifier parsed mt =
     (case mt of (ms, t) \<Rightarrow>
        if modifier parsed = Finite 0 then (ms, t)
        else (ms @ [\<lparr>name = ''Modifier'', amount = modifier parsed\<rparr>],
              dadd t (modifier parsed)))"

definition attribute_bonus ::
  "DiceExpression \<Rightarrow> character option \<Rightarrow> modifier_entry list \<times> number \<Rightarrow>
   modifier_entry list \<times> number" where
  "attribute_bonus parsed ch mt =
     (case mt of (ms, t) \<Rightarrow>
        (case (attributeBonus parsed, ch) of
           (Some a, Some c) \<Rightarrow>
             (let attributeValue = basicAttributes c a;
                  bonus = calculateModifier attributeValue
              in (ms @ [\<lparr>name = attribute_name a @ '' Bonus'', amount = Finite bonus\<rparr>],
                  dadd t (Finite bonus)))
         | _ \<Rightarrow> (ms, t)))"

definition luck_bonus ::
  "character option \<Rightarrow> modifier_entry list \<times> number \<Rightarrow> modifier_entry list \<times> number"
  where
  "luck_bonus ch mt =
     (case mt of (ms, t) \<Rightarrow>
        (case ch of
           None \<Rightarrow> (ms, t)
         | Some c \<Rightarrow>
             if luck (resources c)
             then (ms @ [\<lparr>name = ''Luck Bonus'', amount = Finite 1\<rparr>], dadd t (Finite 1))
             else (ms, t)))"

text \<open>The trace text.\<close>

definition modifier_text :: "modifier_entry \<Rightarrow> string" where
  "modifier_text m =
     '' '' @ (if at_least_zero (amount m) then ''+'' else []) @ toString (amount m) @
     '' ('' @ name m @ '')''"

definition build_details ::
  "DiceExpression \<Rightarrow> bool \<Rightarrow> bool \<Rightarrow> roll list \<Rightarrow> modifier_entry list \<Rightarrow> string" where
  "build_details parsed hasAdvantage hasDisadvantage rs ms =
     (let d0 = (if hasAdvantage then ''(Advantage) ''
                else if hasDisadvantage then ''(Disadvantage) '' else []);
          d1 = d0 @ number_text (count parsed) @ ''d'' @ number_text (sides parsed);
          d2 = (if length rs = 1 then d1 @ '' '' @ arrow @ '' '' @ number_text (result (rs ! 0))
                else d1 @ '' '' @ arrow @ '' ['' @
                     join '', '' (map (\<lambda>r. number_text (result r)) rs) @ '']'')
      in foldl (\<lambda>d m. d @ modifier_text m) d2 ms)"

text \<open>
  \<^verbatim>\<open>rollDice\<close>. The thrown \<^verbatim>\<open>Error('Invalid dice expression')\<close> is the error the
  specification calls \<open>InvalidExpression\<close>.
\<close>

definition InvalidExpression :: error where
  "InvalidExpression = Error ''Invalid dice expression''"

definition rollDice :: "RollRequest \<Rightarrow> int \<Rightarrow> rng \<Rightarrow> (error + DiceResult) \<times> rng" where
  "rollDice request now g =
     (case parseDiceExpression (expression request) of
        None \<Rightarrow> (Inl (Error ''Invalid dice expression''), g)
      | Some parsed \<Rightarrow>
          (let hasAdvantage =
                 (truthy (advantage request) \<and> sides parsed = 20 \<and> count parsed = 1);
               hasDisadvantage =
                 (truthy (disadvantage request) \<and> sides parsed = 20 \<and> count parsed = 1)
           in
           case roll_phase parsed hasAdvantage hasDisadvantage g of
             (rs, t0, g') \<Rightarrow>
               (case luck_bonus (character request)
                       (attribute_bonus parsed (character request)
                          (numeric_modifier parsed ([], t0))) of
                  (ms, t) \<Rightarrow>
                    (Inr \<lparr>res_expression = expression request, rolls = rs, modifiers = ms,
                          total = t,
                          details = build_details parsed hasAdvantage hasDisadvantage rs ms,
                          timestamp = now\<rparr>,
                     g'))))"

subsection \<open>The catalogue of common rolls\<close>






subsection \<open>Vocabulary of the statements\<close>

text \<open>
  The face that \<^verbatim>\<open>rollDie\<close> computes from one value \<open>u\<close> of the random source.
\<close>

definition die_value :: "int \<Rightarrow> real \<Rightarrow> int" where
  "die_value s u = \<lfloor>fl (u * of_int s)\<rfloor> + 1"

text \<open>
  The real numbers that are doubles: an integer below \<open>2^53\<close> in magnitude,
  divided by a power of two up to \<open>2^1074\<close> or multiplied by one up to \<open>2^971\<close>.
\<close>

definition is_double :: "real \<Rightarrow> bool" where
  "is_double x =
     ((\<exists>m k. \<bar>m\<bar> < 2 ^ 53 \<and> k \<le> 1074 \<and> x = of_int m / 2 ^ k) \<or>
      (\<exists>m k. \<bar>m\<bar> < 2 ^ 53 \<and> k \<le> 971 \<and> x = of_int m * 2 ^ k))"

text \<open>
  Every value of the random source is a double in the interval from 0 to 1, 1
  excluded.
\<close>

definition unit_source :: "rng \<Rightarrow> bool" where
  "unit_source g = (\<forall>u \<in> sset g. is_double u \<and> 0 \<le> u \<and> u < 1)"

text \<open>
  Every partial sum of the integers \<open>ns\<close>, taken from \<open>a\<close> on and from left to
  right, is at most \<open>2^53\<close> in magnitude.
\<close>

fun safe_sums :: "int \<Rightarrow> int list \<Rightarrow> bool" where
  "safe_sums a [] = (\<bar>a\<bar> \<le> 2 ^ 53)"
| "safe_sums a (n # ns) = (\<bar>a\<bar> \<le> 2 ^ 53 \<and> safe_sums (a + n) ns)"

text \<open>
  Whether \<^verbatim>\<open>rollDice\<close> takes its first branch, the one that rolls two dice and
  keeps one.
\<close>

definition two_dice_mode :: "RollRequest \<Rightarrow> DiceExpression \<Rightarrow> bool" where
  "two_dice_mode request parsed =
     (sides parsed = 20 \<and> count parsed = 1 \<and>
      (truthy (advantage request) \<or> truthy (disadvantage request)))"

subsection \<open>Sample inputs\<close>

text \<open>
  A character with strength 8 and the luck flag set, a request without character
  and flags, and a random source whose first two values, 0.6875 and 0.3125, are
  doubles: on a d20 they are the faces 14 and 7, on a d6 the faces 5 and 2.
\<close>

definition sample_character :: character where
  "sample_character =
     \<lparr>basicAttributes = (\<lambda>a. if a = A_STR then 8 else 10),
      resources = \<lparr>level = 1, HP = 7, maxHP = 9, AC = 12, meleeAtkBonus = 2,
                   rangedAtkBonus = - 1, spellcastingBonus = 0, luck = True\<rparr>\<rparr>"

definition plain_request :: "string \<Rightarrow> RollRequest" where
  "plain_request e =
     \<lparr>expression = e, character = None, advantage = None, disadvantage = None,
      description = None\<rparr>"

definition sample_source :: rng where
  "sample_source = 11 / 16 ## 5 / 16 ## sconst 0"

text \<open>
  The characters of an expression \<^verbatim>\<open><count>d<sides>+<attr>\<close> or
  \<^verbatim>\<open><count>d<sides>-<attr>\<close> in lower case.
\<close>

definition plain_char :: "char \<Rightarrow> bool" where
  "plain_char x = (x \<in> set ''0123456789d+-strexconiwha'')"

section \<open>Properties\<close>

declare bit_length.simps [simp del]
declare decimal_nat.simps [simp del]
declare normal_rolls.simps [simp del]
declare dadd.simps [simp del]

subsection \<open>Integers that a double holds\<close>

lemma round53_at_2_53: "round53 9007199254740992 = 9007199254740992"
  by code_simp

lemma round53_exact:
  assumes "n \<le> 2 ^ 53"
  shows "round53 n = n"
proof (cases "n < 2 ^ 53")
  case True
  then show ?thesis by (simp add: round53_def)
next
  case False
  then have "n = 9007199254740992" using assms by simp
  then show ?thesis by (simp only: round53_at_2_53)
qed

lemma to_number_exact:
  assumes "\<bar>i\<bar> \<le> 2 ^ 53"
  shows "to_number i = Finite i"
proof -
  have r: "round53 \<bar>i\<bar> = \<bar>i\<bar>" using assms by (rule round53_exact)
  have "(2 :: int) ^ 53 < 2 ^ 1024" by simp
  then have "\<not> 2 ^ 1024 \<le> \<bar>i\<bar>" using assms by linarith
  then show ?thesis unfolding to_number_def r Let_def by auto
qed

lemma dadd_exact: "\<bar>a + b\<bar> \<le> 2 ^ 53 \<Longrightarrow> dadd (Finite a) (Finite b) = Finite (a + b)"
  by (simp add: dadd.simps to_number_exact)

lemma safe_sums_head: "safe_sums a ns \<Longrightarrow> \<bar>a\<bar> \<le> 2 ^ 53"
  by (cases ns) simp_all

text \<open>
  As long as no partial sum leaves the range in which every integer is a double,
  the additions of the code are the additions of the integers.
\<close>

lemma foldl_dadd_exact:
  "safe_sums a ns \<Longrightarrow> foldl dadd (Finite a) (map Finite ns) = Finite (a + sum_list ns)"
proof (induction ns arbitrary: a)
  case Nil
  show ?case by simp
next
  case (Cons n ns)
  then have s: "safe_sums (a + n) ns" by simp
  have "dadd (Finite a) (Finite n) = Finite (a + n)"
    using safe_sums_head[OF s] by (rule dadd_exact)
  then show ?case using Cons.IH[OF s] by (simp add: add.assoc)
qed

lemma magnitude_small: "v < 2 ^ 53 \<Longrightarrow> magnitude_text v = number_text v"
  by (simp add: magnitude_text_def)

subsection \<open>Rounding to a double\<close>

lemma round_even_error: "\<bar>of_int (round_even q) - q\<bar> \<le> 1 / 2"
proof -
  have "of_int \<lfloor>q\<rfloor> \<le> q" "q < of_int \<lfloor>q\<rfloor> + 1" by linarith+
  then show ?thesis by (auto simp: round_even_def Let_def)
qed

lemma round_even_of_int: "round_even (of_int n) = n"
  by (simp add: round_even_def)

lemma round_even_nonneg: "0 \<le> q \<Longrightarrow> 0 \<le> round_even q"
  by (auto simp: round_even_def Let_def)

lemma ulp_pos: "0 < ulp x"
  by (simp add: ulp_def)

text \<open>The rounded value is within half a unit of the last place.\<close>

lemma fl_error: "\<bar>fl x - x\<bar> \<le> ulp x / 2"
proof (cases "x = 0")
  case True
  then show ?thesis using ulp_pos[of x] by (simp add: fl_def)
next
  case False
  have "fl x - x = (of_int (round_even (x / ulp x)) - x / ulp x) * ulp x"
    using False ulp_pos[of x] by (simp add: fl_def field_simps)
  then have "\<bar>fl x - x\<bar> = \<bar>of_int (round_even (x / ulp x)) - x / ulp x\<bar> * ulp x"
    using ulp_pos[of x] by (simp add: abs_mult)
  also have "\<dots> \<le> (1 / 2) * ulp x"
    using round_even_error[of "x / ulp x"] ulp_pos[of x] by (intro mult_right_mono) simp_all
  finally show ?thesis by simp
qed

lemma fl_nonneg: "0 \<le> x \<Longrightarrow> 0 \<le> fl x"
  using ulp_pos[of x] round_even_nonneg[of "x / ulp x"] by (simp add: fl_def)

lemma binade_bounds:
  assumes "0 < x"
  shows "2 powr of_int \<lfloor>log 2 x\<rfloor> \<le> x" "x < 2 powr (of_int \<lfloor>log 2 x\<rfloor> + 1)"
proof -
  have "2 powr of_int \<lfloor>log 2 x\<rfloor> \<le> 2 powr (log 2 x)"
    by (intro powr_mono) simp_all
  then show "2 powr of_int \<lfloor>log 2 x\<rfloor> \<le> x" using assms by simp
  have "2 powr (log 2 x) < 2 powr (of_int \<lfloor>log 2 x\<rfloor> + 1)"
    by (intro powr_less_mono) simp_all
  then show "x < 2 powr (of_int \<lfloor>log 2 x\<rfloor> + 1)" using assms by simp
qed

text \<open>
  A product that stays a factor \<open>1 - 2^(- 53)\<close> below \<open>s\<close> is rounded to a double
  below \<open>s\<close>: rounding adds at most the fraction \<open>2^(- 53)\<close> of the product.
\<close>

lemma fl_below:
  assumes "0 \<le> x" and "x \<le> s * (1 - 1 / 2 ^ 53)" and "1 \<le> s"
  shows "fl x < s"
proof (cases "x = 0")
  case True
  then show ?thesis using assms(3) by (simp add: fl_def)
next
  case False
  then have pos: "0 < x" using assms(1) by simp
  define e where "e = \<lfloor>log 2 x\<rfloor>"
  have up: "fl x \<le> x + ulp x / 2" using fl_error[of x] by linarith
  have b: "binade x = max e (- 1022)" using pos by (simp add: binade_def e_def)
  show ?thesis
  proof (cases "- 1022 \<le> e")
    case True
    then have "ulp x = 2 powr (of_int e - 52)"
      unfolding ulp_def b by simp
    also have "\<dots> = 2 powr of_int e / 2 ^ 52" by (simp add: powr_diff)
    also have "\<dots> \<le> x / 2 ^ 52"
      using binade_bounds(1)[OF pos] by (simp add: e_def divide_right_mono)
    finally have "ulp x / 2 \<le> x / 2 ^ 53" by simp
    with up have "fl x \<le> x * (1 + 1 / 2 ^ 53)" by (simp add: algebra_simps)
    also have "\<dots> \<le> (s * (1 - 1 / 2 ^ 53)) * (1 + 1 / 2 ^ 53)"
      using assms(2) by (intro mult_right_mono) simp_all
    also have "\<dots> = s * (1 - (1 / 2 ^ 53) * (1 / 2 ^ 53))" by (simp add: algebra_simps)
    also have "\<dots> < s * 1"
      using assms(3) by (intro mult_strict_left_mono) simp_all
    finally show ?thesis by simp
  next
    case False
    then have u: "ulp x = 2 powr (- 1074)"
      unfolding ulp_def b by simp
    have "of_int e + 1 \<le> (- 1022 :: real)" using False by linarith
    then have "2 powr (of_int e + 1) \<le> 2 powr (- 1022 :: real)" by (intro powr_mono) simp_all
    moreover have "x < 2 powr (of_int e + 1)"
      unfolding e_def by (rule binade_bounds(2)[OF pos])
    ultimately have x: "x < 2 powr (- 1022 :: real)" by linarith
    have "2 powr (- 1022 :: real) \<le> 2 powr (- 1)" "2 powr (- 1074 :: real) \<le> 2 powr (- 1)"
      by (intro powr_mono; simp)+
    then have "2 powr (- 1022 :: real) \<le> 1 / 2" "2 powr (- 1074 :: real) \<le> 1 / 2"
      by (simp_all add: powr_minus)
    with up u x assms(3) show ?thesis by linarith
  qed
qed

text \<open>The largest double below 1 is \<open>1 - 2^(- 53)\<close>.\<close>

lemma double_below_one:
  assumes "is_double u" and "0 \<le> u" and "u < 1"
  shows "u \<le> 1 - 1 / 2 ^ 53"
proof -
  consider (frac) m k where "\<bar>m\<bar> < (2 :: int) ^ 53" "k \<le> (1074 :: nat)" "u = of_int m / 2 ^ k"
    | (whole) m k where "\<bar>m\<bar> < (2 :: int) ^ 53" "k \<le> (971 :: nat)" "u = of_int m * 2 ^ k"
    using assms(1) unfolding is_double_def by blast
  then show ?thesis
  proof cases
    case frac
    have "of_int m < (2 :: real) ^ k" using assms(3) frac(3) by (simp add: field_simps)
    then have "m < 2 ^ k" by simp
    then have mk: "m \<le> 2 ^ k - 1" by simp
    have m53: "m \<le> 2 ^ 53 - 1" using frac(1) by simp
    show ?thesis
    proof (cases "k \<le> 53")
      case True
      have "(of_int m :: real) \<le> of_int (2 ^ k - 1)" using mk by (simp only: of_int_le_iff)
      then have "of_int m \<le> (2 :: real) ^ k - 1" by simp
      then have "u \<le> 1 - 1 / 2 ^ k" unfolding frac(3) by (simp add: field_simps)
      moreover have "(2 :: real) ^ k \<le> 2 ^ 53" using True by (intro power_increasing) simp_all
      then have "1 / (2 :: real) ^ 53 \<le> 1 / 2 ^ k" by (simp add: field_simps)
      ultimately show ?thesis by linarith
    next
      case False
      then have "(2 :: real) ^ 53 \<le> 2 ^ k" by (intro power_increasing) simp_all
      moreover have "(of_int m :: real) \<le> of_int (2 ^ 53 - 1)"
        using m53 by (simp only: of_int_le_iff)
      then have "of_int m \<le> (2 :: real) ^ 53 - 1" by simp
      moreover have "of_int m = u * 2 ^ k" using frac(3) by simp
      then have "0 \<le> (of_int m :: real)" using assms(2) by simp
      ultimately have "of_int m / (2 :: real) ^ k \<le> (2 ^ 53 - 1) / 2 ^ 53"
        by (intro frac_le) simp_all
      then show ?thesis unfolding frac(3) by (simp add: field_simps)
    qed
  next
    case whole
    define n where "n = m * 2 ^ k"
    have un: "u = of_int n" by (simp add: whole(3) n_def)
    then have "n < 1" using assms(3) by simp
    then have "u \<le> 0" unfolding un by simp
    then show ?thesis by simp
  qed
qed

text \<open>A double with a denominator up to \<open>2^1074\<close> is rounded to itself.\<close>

lemma fl_exact:
  assumes "\<bar>m\<bar> < 2 ^ 53" and "k \<le> 1074"
  shows "fl (of_int m / 2 ^ k) = of_int m / 2 ^ k"
proof (cases "m = 0")
  case True
  then show ?thesis by (simp add: fl_def)
next
  case False
  define x :: real where "x = of_int m / 2 ^ k"
  have x0: "x \<noteq> 0" using False by (simp add: x_def)
  have ax: "\<bar>x\<bar> = \<bar>of_int m\<bar> / 2 ^ k" by (simp add: x_def abs_divide)
  have "\<bar>(of_int m :: real)\<bar> < 2 ^ 53" using assms(1) by (simp flip: of_int_abs)
  then have "\<bar>x\<bar> < 2 ^ 53 / 2 ^ k" unfolding ax by (simp add: divide_strict_right_mono)
  also have "\<dots> = 2 powr (53 - real k)" by (simp add: powr_diff powr_realpow)
  finally have "log 2 \<bar>x\<bar> < 53 - real k"
    using x0 by (subst log_less_iff) simp_all
  then have "\<lfloor>log 2 \<bar>x\<bar>\<rfloor> < 53 - int k" by (subst floor_less_iff) simp
  then have "binade x - 52 \<le> - int k" using assms(2) by (simp add: binade_def)
  then obtain j :: nat where j: "binade x - 52 = - int (k + j)"
    by (metis add.inverse_inverse int_ops(5) nat_le_iff neg_le_iff_le zle_iff_zadd)
  have u: "ulp x = 1 / 2 ^ (k + j)"
    unfolding ulp_def j by (simp add: powr_minus powr_realpow inverse_eq_divide flip: of_nat_add)
  have q: "x / ulp x = of_int (m * 2 ^ j)" unfolding u by (simp add: x_def power_add)
  have "fl x = of_int (m * 2 ^ j) * ulp x"
    using x0 unfolding fl_def q round_even_of_int by simp
  also have "\<dots> = x" unfolding u by (simp add: x_def power_add)
  finally show ?thesis by (simp add: x_def)
qed

lemma is_double_frac: "\<bar>m\<bar> < 2 ^ 53 \<Longrightarrow> k \<le> 1074 \<Longrightarrow> is_double (of_int m / 2 ^ k)"
  unfolding is_double_def by blast

subsection \<open>Arithmetic of a single die\<close>

lemma calculateModifier_div: "calculateModifier v = (v - 10) div 2"
proof -
  have "(of_int v - 10) / (2 :: real) = of_int (v - 10) / of_int 2" by simp
  then show ?thesis
    unfolding calculateModifier_def by (simp only: floor_divide_of_int_eq)
qed

lemma rollDie_eq: "rollDie s g = (die_value s (shd g), stl g)"
  by (simp add: rollDie_def secureRandom_def die_value_def)

text \<open>
  The face is on the die: the product of a double below 1 and the number of
  sides is rounded to a double below the number of sides.
\<close>

lemma die_value_range:
  assumes "is_double u" "0 \<le> u" "u < 1" "1 \<le> s"
  shows "1 \<le> die_value s u \<and> die_value s u \<le> s"
proof -
  have s1: "(1 :: real) \<le> of_int s" using assms(4) by simp
  have x0: "0 \<le> u * of_int s" using assms(2) s1 by simp
  have "u * of_int s \<le> (1 - 1 / 2 ^ 53) * of_int s"
    using double_below_one[OF assms(1-3)] s1 by (intro mult_right_mono) simp_all
  then have "u * of_int s \<le> of_int s * (1 - 1 / 2 ^ 53)" by (simp only: mult.commute)
  then have "fl (u * of_int s) < of_int s" using x0 s1 by (intro fl_below)
  then have hi: "\<lfloor>fl (u * of_int s)\<rfloor> < s" by (simp add: floor_less_iff)
  have lo: "0 \<le> \<lfloor>fl (u * of_int s)\<rfloor>" using fl_nonneg[OF x0] by simp
  from lo hi show ?thesis by (simp add: die_value_def)
qed

text \<open>
  The rounding decides the face. The double nearest to 0.95 is
  \<open>8556839292003942 / 2^53\<close>; its product with 20 is below 19 and is rounded to
  19, so the face on a d20 is 20, where the floor of the exact product is 18.
\<close>

lemma binade_eq:
  assumes "2 powr of_int e \<le> \<bar>x\<bar>" and "\<bar>x\<bar> < 2 powr (of_int e + 1)" and "- 1022 \<le> e"
  shows "binade x = e"
proof -
  have pos: "0 < \<bar>x\<bar>" using assms(1) by (rule less_le_trans[rotated]) simp
  have "of_int e \<le> log 2 \<bar>x\<bar>" using assms(1) pos by (subst le_log_iff) simp_all
  moreover have "log 2 \<bar>x\<bar> < of_int e + 1" using assms(2) pos by (subst log_less_iff) simp_all
  ultimately have "\<lfloor>log 2 \<bar>x\<bar>\<rfloor> = e" by (intro floor_unique) simp_all
  then show ?thesis using assms(3) by (simp add: binade_def)
qed

lemma rounded_product:
  "8556839292003942 / 2 ^ 53 * 20 < (19 :: real)"
  "fl (8556839292003942 / 2 ^ 53 * 20) = 19"
  "die_value 20 (8556839292003942 / 2 ^ 53) = 20"
proof -
  define x :: real where "x = 8556839292003942 / 2 ^ 53 * 20"
  show "8556839292003942 / 2 ^ 53 * 20 < (19 :: real)" by simp
  have x0: "x \<noteq> 0" by (simp add: x_def)
  have b: "binade x = 4"
    by (rule binade_eq) (simp_all add: x_def)
  have u: "ulp x = 1 / 2 ^ 48"
    unfolding ulp_def b by (simp add: powr_minus_divide)
  have q: "x / ulp x = 5348024557502463 + 3 / 4"
    unfolding u by (simp add: x_def)
  have "\<lfloor>x / ulp x\<rfloor> = 5348024557502463" unfolding q by (intro floor_unique) simp_all
  then have "round_even (x / ulp x) = 5348024557502464"
    unfolding round_even_def Let_def by (simp add: q)
  then have "fl x = 5348024557502464 * ulp x" using x0 by (simp add: fl_def)
  then have "fl x = 19" unfolding u by simp
  then show f: "fl (8556839292003942 / 2 ^ 53 * 20) = 19" unfolding x_def .
  show "die_value 20 (8556839292003942 / 2 ^ 53) = 20"
    unfolding die_value_def using f by simp
qed

subsection \<open>The random source\<close>

lemma unit_source_stl: "unit_source g \<Longrightarrow> unit_source (stl g)"
  by (auto simp: unit_source_def dest: stl_sset)

lemma unit_source_shd: "unit_source g \<Longrightarrow> is_double (shd g) \<and> 0 \<le> shd g \<and> shd g < 1"
  by (simp add: unit_source_def shd_sset)

lemma unit_source_stake:
  "unit_source g \<Longrightarrow> u \<in> set (stake n g) \<Longrightarrow> is_double u \<and> 0 \<le> u \<and> u < 1"
proof (induction n arbitrary: g)
  case 0
  then show ?case by simp
next
  case (Suc n)
  then show ?case
    using unit_source_shd[of g] unit_source_stl[of g] by auto
qed

lemma unit_source_SCons:
  "unit_source (u ## g) \<longleftrightarrow> is_double u \<and> 0 \<le> u \<and> u < 1 \<and> unit_source g"
  by (auto simp: unit_source_def)

lemma unit_source_sconst: "unit_source (sconst c) \<longleftrightarrow> is_double c \<and> 0 \<le> c \<and> c < 1"
  by (simp add: unit_source_def)

lemma unit_source_snth: "unit_source g \<Longrightarrow> is_double (g !! n) \<and> 0 \<le> g !! n \<and> g !! n < 1"
  by (simp add: unit_source_def)

subsection \<open>The loop of the normal mode\<close>

text \<open>
  The loop rolls one die for each index from \<open>i\<close> up to the count, in the order
  of the source, and adds each face to the total.
\<close>

lemma normal_rolls_closed:
  "normal_rolls p i rs t g =
     (rs @ map (\<lambda>u. roll_entry (sides p) (die_value (sides p) u)) (stake (nat (count p - i)) g),
      foldl dadd t (map (\<lambda>u. Finite (die_value (sides p) u)) (stake (nat (count p - i)) g)),
      sdrop (nat (count p - i)) g)"
proof (induction p i rs t g rule: normal_rolls.induct)
  case (1 parsed i rs t g)
  show ?case
  proof (cases "i < count parsed")
    case True
    then have n: "nat (count parsed - i) = Suc (nat (count parsed - (i + 1)))" by simp
    show ?thesis
      using True "1.IH"[OF True rollDie_eq[symmetric]]
      by (subst normal_rolls.simps) (simp add: n rollDie_eq)
  next
    case False
    then show ?thesis by (subst normal_rolls.simps) simp
  qed
qed

subsection \<open>What the parser returns\<close>

lemma parse_basic_bounds:
  "parse_basic c = Some p \<Longrightarrow> in_bounds (count p) (sides p) \<and> attributeBonus p = None"
  by (auto simp: parse_basic_def Let_def split: option.splits prod.splits number.splits if_splits)

lemma parse_complex_bounds: "parse_complex c = Some p \<Longrightarrow> in_bounds (count p) (sides p)"
  by (auto simp: parse_complex_def Let_def split: option.splits prod.splits number.splits if_splits)

lemma parse_bounds: "parseDiceExpression e = Some p \<Longrightarrow> in_bounds (count p) (sides p)"
  by (auto simp: parseDiceExpression_def Let_def parse_basic_bounds parse_complex_bounds
      split: option.splits)

lemma parse_range:
  "parseDiceExpression e = Some p \<Longrightarrow>
   1 \<le> count p \<and> count p \<le> 100 \<and> 1 \<le> sides p \<and> sides p \<le> 1000"
  using parse_bounds[of e p] by (simp add: in_bounds_def)

subsection \<open>The three ways of rolling\<close>

lemma roll_phase_advantage:
  "roll_phase p True d g =
     ([roll_entry (sides p) (max (die_value (sides p) (g !! 0)) (die_value (sides p) (g !! 1)))],
      dadd (Finite 0)
        (Finite (max (die_value (sides p) (g !! 0)) (die_value (sides p) (g !! 1)))),
      sdrop 2 g)"
  by (simp add: roll_phase_def rollWithAdvantage_def rollDie_eq numeral_2_eq_2)

lemma roll_phase_disadvantage:
  "roll_phase p False True g =
     ([roll_entry (sides p) (min (die_value (sides p) (g !! 0)) (die_value (sides p) (g !! 1)))],
      dadd (Finite 0)
        (Finite (min (die_value (sides p) (g !! 0)) (die_value (sides p) (g !! 1)))),
      sdrop 2 g)"
  by (simp add: roll_phase_def rollWithDisadvantage_def rollDie_eq numeral_2_eq_2)

lemma roll_phase_normal:
  "roll_phase p False False g =
     (map (\<lambda>u. roll_entry (sides p) (die_value (sides p) u)) (stake (nat (count p)) g),
      foldl dadd (Finite 0) (map (\<lambda>u. Finite (die_value (sides p) u)) (stake (nat (count p)) g)),
      sdrop (nat (count p)) g)"
  by (simp add: roll_phase_def normal_rolls_closed)

text \<open>
  The total after the dice, and the total after the modifiers, are sums taken
  from left to right with the addition of the code.
\<close>

lemma roll_phase_total:
  "roll_phase p a d g = (rs, t0, g') \<Longrightarrow>
   t0 = foldl dadd (Finite 0) (map (\<lambda>r. Finite (result r)) rs)"
  by (cases a; cases d)
     (auto simp: roll_phase_advantage roll_phase_disadvantage roll_phase_normal roll_entry_def
        comp_def)

lemma modifiers_total:
  "luck_bonus ch (attribute_bonus p ch (numeric_modifier p ([], t0))) = (ms, t) \<Longrightarrow>
   t = foldl dadd t0 (map amount ms)"
  by (auto simp: luck_bonus_def attribute_bonus_def numeric_modifier_def Let_def
      split: option.splits if_splits)

subsection \<open>The result of a roll, field by field\<close>

lemma rollDice_Some:
  assumes "parseDiceExpression (expression req) = Some p"
  shows "rollDice req now g =
     (let a = (truthy (advantage req) \<and> sides p = 20 \<and> count p = 1);
          d = (truthy (disadvantage req) \<and> sides p = 20 \<and> count p = 1);
          ph = roll_phase p a d g;
          mt = luck_bonus (character req)
                 (attribute_bonus p (character req) (numeric_modifier p ([], fst (snd ph))))
      in (Inr \<lparr>res_expression = expression req, rolls = fst ph, modifiers = fst mt,
               total = snd mt, details = build_details p a d (fst ph) (fst mt),
               timestamp = now\<rparr>,
          snd (snd ph)))"
  using assms by (simp add: rollDice_def Let_def split: prod.splits)

lemma rollDice_Inr_parsed:
  "rollDice req now g = (Inr res, g') \<Longrightarrow> \<exists>p. parseDiceExpression (expression req) = Some p"
  by (auto simp: rollDice_def split: option.splits)

subsection \<open>The sample inputs, evaluated\<close>

lemma parse_2d6:
  "parseDiceExpression ''2d6+1'' =
     Some \<lparr>count = 2, sides = 6, modifier = Finite 1, attributeBonus = None\<rparr>"
  by code_simp

lemma parse_d20:
  "parseDiceExpression ''1d20'' =
     Some \<lparr>count = 1, sides = 20, modifier = Finite 0, attributeBonus = None\<rparr>"
  by code_simp

lemma parse_d20_str:
  "parseDiceExpression ''1d20+str'' =
     Some \<lparr>count = 1, sides = 20, modifier = Finite 0, attributeBonus = Some A_STR\<rparr>"
  by code_simp

lemma texts:
  "number_text 1 = ''1''" "number_text 2 = ''2''" "number_text 5 = ''5''"
  "number_text 6 = ''6''" "number_text 7 = ''7''" "number_text 14 = ''14''"
  "number_text 20 = ''20''" "number_text (- 1) = ''-1''"
  by code_simp+

lemma sample_products:
  "fl (33 / 8) = 33 / 8" "fl (15 / 8) = 15 / 8" "fl (55 / 4) = 55 / 4" "fl (25 / 4) = 25 / 4"
  using fl_exact[of 33 3] fl_exact[of 15 3] fl_exact[of 55 2] fl_exact[of 25 2]
  by simp_all

lemma faces:
  "die_value 6 (11 / 16) = 5" "die_value 6 (5 / 16) = 2"
  "die_value 20 (11 / 16) = 14" "die_value 20 (5 / 16) = 7"
  by (simp_all add: die_value_def sample_products)

lemma eval_2d6:
  "rollDice (plain_request ''2d6+1'') now sample_source =
     (Inr \<lparr>res_expression = ''2d6+1'', rolls = [roll_entry 6 5, roll_entry 6 2],
           modifiers = [\<lparr>name = ''Modifier'', amount = Finite 1\<rparr>], total = Finite 8,
           details = ''2d6 '' @ arrow @ '' [5, 2] +1 (Modifier)'', timestamp = now\<rparr>,
      sconst 0)"
  by (simp add: rollDice_Some[where p = "\<lparr>count = 2, sides = 6, modifier = Finite 1,
         attributeBonus = None\<rparr>"]
       plain_request_def parse_2d6 truthy_def roll_phase_normal sample_source_def
       numeral_2_eq_2 faces roll_entry_def numeric_modifier_def attribute_bonus_def
       luck_bonus_def build_details_def modifier_text_def texts dadd_exact magnitude_small)

lemma eval_both_flags:
  "rollDice \<lparr>expression = ''1d20+str'', character = Some sample_character,
             advantage = Some True, disadvantage = Some True, description = None\<rparr>
     now sample_source =
     (Inr \<lparr>res_expression = ''1d20+str'', rolls = [roll_entry 20 14],
           modifiers = [\<lparr>name = ''STR Bonus'', amount = Finite (- 1)\<rparr>,
                        \<lparr>name = ''Luck Bonus'', amount = Finite 1\<rparr>],
           total = Finite 14,
           details = ''(Advantage) 1d20 '' @ arrow @ '' 14 -1 (STR Bonus) +1 (Luck Bonus)'',
           timestamp = now\<rparr>,
      sconst 0)"
  by (simp add: rollDice_Some[where p = "\<lparr>count = 1, sides = 20, modifier = Finite 0,
         attributeBonus = Some A_STR\<rparr>"]
       parse_d20_str truthy_def roll_phase_advantage sample_source_def numeral_2_eq_2 faces
       roll_entry_def sample_character_def calculateModifier_div numeric_modifier_def
       attribute_bonus_def luck_bonus_def build_details_def modifier_text_def texts
       dadd_exact magnitude_small)

subsection \<open>The faces stay on the die\<close>

lemma sample_doubles: "is_double (11 / 16)" "is_double (5 / 16)" "is_double 0"
  using is_double_frac[of 11 4] is_double_frac[of 5 4] is_double_frac[of 0 0] by simp_all

lemma unit_sample_source: "unit_source sample_source"
  by (simp add: sample_source_def unit_source_SCons unit_source_sconst sample_doubles)

lemma roll_entry_ok:
  assumes "1 \<le> v" "v \<le> s"
  shows "1 \<le> result (roll_entry s v) \<and> result (roll_entry s v) \<le> s \<and>
         (isMax (roll_entry s v) \<longleftrightarrow> result (roll_entry s v) = s) \<and>
         (isMin (roll_entry s v) \<longleftrightarrow> result (roll_entry s v) = 1)"
  using assms by (simp add: roll_entry_def)

lemma roll_phase_range:
  assumes "unit_source g" "1 \<le> sides p" "r \<in> set (fst (roll_phase p a d g))"
  shows "1 \<le> result r \<and> result r \<le> sides p \<and>
         (isMax r \<longleftrightarrow> result r = sides p) \<and> (isMin r \<longleftrightarrow> result r = 1)"
proof -
  have two: "1 \<le> die_value (sides p) (g !! n) \<and> die_value (sides p) (g !! n) \<le> sides p"
    for n
    using die_value_range[of "g !! n" "sides p"] unit_source_snth[OF assms(1), of n] assms(2)
    by simp
  consider (adv) "a" | (dis) "\<not> a" "d" | (normal) "\<not> a" "\<not> d" by blast
  then show ?thesis
  proof cases
    case adv
    then have "r = roll_entry (sides p)
        (max (die_value (sides p) (g !! 0)) (die_value (sides p) (g !! 1)))"
      using assms(3) by (simp add: roll_phase_advantage)
    then show ?thesis
      using roll_entry_ok[of "max (die_value (sides p) (g !! 0))
          (die_value (sides p) (g !! 1))" "sides p"]
        two[of 0] two[of 1] by (simp add: max_def)
  next
    case dis
    then have "r = roll_entry (sides p)
        (min (die_value (sides p) (g !! 0)) (die_value (sides p) (g !! 1)))"
      using assms(3) by (simp add: roll_phase_disadvantage)
    then show ?thesis
      using roll_entry_ok[of "min (die_value (sides p) (g !! 0))
          (die_value (sides p) (g !! 1))" "sides p"]
        two[of 0] two[of 1] by (simp add: min_def)
  next
    case normal
    then obtain u where u: "u \<in> set (stake (nat (count p)) g)"
        "r = roll_entry (sides p) (die_value (sides p) u)"
      using assms(3) by (auto simp: roll_phase_normal)
    have "1 \<le> die_value (sides p) u \<and> die_value (sides p) u \<le> sides p"
      using die_value_range[of u "sides p"] unit_source_stake[OF assms(1) u(1)] assms(2)
      by simp
    then show ?thesis
      using roll_entry_ok[of "die_value (sides p) u" "sides p"] u(2) by simp
  qed
qed

lemma rollDice_fields:
  assumes "parseDiceExpression (expression req) = Some p"
  shows "\<exists>res. rollDice req now g =
            (Inr res,
             snd (snd (roll_phase p (truthy (advantage req) \<and> sides p = 20 \<and> count p = 1)
                (truthy (disadvantage req) \<and> sides p = 20 \<and> count p = 1) g))) \<and>
          rolls res = fst (roll_phase p (truthy (advantage req) \<and> sides p = 20 \<and> count p = 1)
                (truthy (disadvantage req) \<and> sides p = 20 \<and> count p = 1) g) \<and>
          res_expression res = expression req \<and> timestamp res = now"
  by (simp add: rollDice_Some[OF assms] Let_def)

subsection \<open>Flags, failure and the modifiers\<close>

lemma foldl_keeps_prefix: "prefix x d \<Longrightarrow> prefix x (foldl (\<lambda>d m. d @ f m) d ms)"
  by (induction ms arbitrary: d) (simp_all add: prefix_prefix)

lemma build_details_advantage: "prefix ''(Advantage) '' (build_details p True d rs ms)"
  unfolding build_details_def Let_def
  by (rule foldl_keeps_prefix) (simp split: if_splits)

lemma flags_without_effect:
  assumes "parseDiceExpression (expression req) = Some p" and "sides p \<noteq> 20 \<or> count p \<noteq> 1"
  shows "rollDice (req\<lparr>advantage := a', disadvantage := d'\<rparr>) now g = rollDice req now g"
proof -
  have p': "parseDiceExpression (expression (req\<lparr>advantage := a', disadvantage := d'\<rparr>)) = Some p"
    using assms(1) by simp
  show ?thesis
    unfolding rollDice_Some[OF p'] rollDice_Some[OF assms(1)] using assms(2) by auto
qed

lemma rollDice_None:
  "parseDiceExpression (expression req) = None \<Longrightarrow> rollDice req now g = (Inl InvalidExpression, g)"
  by (simp add: rollDice_def InvalidExpression_def)

lemma roll_phase_length:
  "length (fst (roll_phase p a d g)) = (if a \<or> d then 1 else nat (count p))"
  by (cases a; cases d) (simp_all add: roll_phase_advantage roll_phase_disadvantage roll_phase_normal)

lemma modifiers_explicit:
  "fst (luck_bonus ch (attribute_bonus p ch (numeric_modifier p ([], t0)))) =
     (if modifier p = Finite 0 then [] else [\<lparr>name = ''Modifier'', amount = modifier p\<rparr>]) @
     (case (attributeBonus p, ch) of
        (Some a, Some c) \<Rightarrow>
          [\<lparr>name = attribute_name a @ '' Bonus'',
            amount = Finite ((basicAttributes c a - 10) div 2)\<rparr>]
      | _ \<Rightarrow> []) @
     (case ch of
        None \<Rightarrow> []
      | Some c \<Rightarrow>
          if luck (resources c) then [\<lparr>name = ''Luck Bonus'', amount = Finite 1\<rparr>] else [])"
  by (auto simp: luck_bonus_def attribute_bonus_def numeric_modifier_def Let_def
      calculateModifier_div split: option.splits)

subsection \<open>More of the sample inputs\<close>

lemma sample_source_simps:
  "sample_source !! 0 = 11 / 16" "sample_source !! 1 = 5 / 16"
  "shd sample_source = 11 / 16" "shd (stl sample_source) = 5 / 16"
  "sdrop 2 sample_source = sconst 0" "stake 2 sample_source = [11 / 16, 5 / 16]"
  by (simp_all add: sample_source_def numeral_2_eq_2)

lemma parse_abc: "parseDiceExpression ''abc'' = None" by code_simp

text \<open>
  An expression whose modifier is \<open>2^53\<close>: the parser accepts it, and the double
  nearest to the sum \<open>2^53 + 5\<close> is \<open>2^53 + 4\<close>.
\<close>

lemma parse_large_modifier:
  "parseDiceExpression ''1d6+9007199254740992'' =
     Some \<lparr>count = 1, sides = 6, modifier = Finite 9007199254740992, attributeBonus = None\<rparr>"
  by code_simp

lemma sum_beyond_2_53:
  "dadd (dadd (Finite 0) (Finite 5)) (Finite 9007199254740992) = Finite 9007199254740996"
  by code_simp

lemma eval_disadvantage:
  "rollDice \<lparr>expression = ''1d20'', character = None, advantage = None,
             disadvantage = Some True, description = None\<rparr> now sample_source =
     (Inr \<lparr>res_expression = ''1d20'', rolls = [roll_entry 20 7], modifiers = [],
           total = Finite 7,
           details = ''(Disadvantage) 1d20 '' @ arrow @ '' 7'', timestamp = now\<rparr>,
      sconst 0)"
  by (simp add: rollDice_Some[where p = "\<lparr>count = 1, sides = 20, modifier = Finite 0,
         attributeBonus = None\<rparr>"]
       parse_d20 truthy_def roll_phase_disadvantage sample_source_def numeral_2_eq_2 faces
       roll_entry_def numeric_modifier_def attribute_bonus_def
       luck_bonus_def build_details_def modifier_text_def texts dadd_exact)

subsection \<open>Expressions with an attribute token\<close>

lemma plain_cases:
  "plain_char x \<Longrightarrow> of_char x \<in> {48..57::nat} \<or> of_char x \<in> {43, 45::nat} \<or> of_char x \<in> {97..120::nat}"
  unfolding plain_char_def by (elim rev_mp) (simp add: )

lemma lower_plain: "plain_char x \<Longrightarrow> lower_char x = x"
  using plain_cases[of x] by (auto simp: lower_char_def)

lemma not_ws_plain: "plain_char x \<Longrightarrow> \<not> ascii_ws x \<and> x \<notin> {CHR 0xC2, CHR 0xE1, CHR 0xE2, CHR 0xE3, CHR 0xEF}"
  using plain_cases[of x] by (auto simp: ascii_ws_def)

lemma ws_len_0:
  assumes "\<not> ascii_ws x" "x \<notin> {CHR 0xC2, CHR 0xE1, CHR 0xE2, CHR 0xE3, CHR 0xEF}"
  shows "ws_len (x # ys) = 0"
proof (cases ys)
  case Nil
  then show ?thesis using assms by simp
next
  case (Cons y zs)
  then show ?thesis using assms by (cases zs) (simp_all add: ws3_def)
qed

lemma ws_len_plain: "plain_char x \<Longrightarrow> ws_len (x # ys) = 0"
  using not_ws_plain[of x] by (intro ws_len_0) simp_all

lemma clean_plain: "list_all plain_char xs \<Longrightarrow> remove_whitespace (toLowerCase xs) = xs"
  by (induction xs) (simp_all add: toLowerCase_def lower_plain ws_len_plain)

lemma plain_digit: "is_digit x \<Longrightarrow> plain_char x"
  by (auto simp: is_digit_def plain_char_def)

lemma plain_sign: "is_sign x \<Longrightarrow> plain_char x"
  by (auto simp: is_sign_def plain_char_def)

lemma token_cases:
  "a \<in> set attribute_tokens \<longleftrightarrow>
     a = ''str'' \<or> a = ''dex'' \<or> a = ''con'' \<or> a = ''int'' \<or> a = ''wis'' \<or> a = ''cha''"
  by (auto simp: attribute_tokens_def)

lemma plain_token: "a \<in> set attribute_tokens \<Longrightarrow> list_all plain_char a"
  by (auto simp: token_cases plain_char_def)

lemma token_shape:
  "a \<in> set attribute_tokens \<Longrightarrow> take 3 a = a \<and> length a = 3 \<and> \<not> list_all is_digit a \<and> a \<noteq> []"
  by (auto simp: token_cases is_digit_def)

lemma sign_not_digit: "is_sign x \<Longrightarrow> \<not> is_digit x"
  by (auto simp: is_sign_def is_digit_def)

lemma digits_then: 
  assumes "list_all is_digit c" "\<not> is_digit x"
  shows "takeWhile is_digit (c @ x # r) = c" "dropWhile is_digit (c @ x # r) = x # r"
  using assms by (simp_all add: list_all_iff takeWhile_append2 dropWhile_append2)

lemma basicMatch_attr:
  assumes "list_all is_digit c" "list_all is_digit s" "a \<in> set attribute_tokens" "is_sign x"
  shows "basicMatch (c @ ''d'' @ s @ x # a) = None"
proof -
  have d: "\<not> is_digit CHR ''d''" by (simp add: is_digit_def)
  show ?thesis
    using token_shape[OF assms(3)] assms(4)
    by (simp add: basicMatch_def digits_then[OF assms(1) d] digits_then[OF assms(2) sign_not_digit[OF assms(4)]]
        signed_digits_def Let_def)
qed

lemma complexMatch_attr:
  assumes "list_all is_digit c" "list_all is_digit s" "a \<in> set attribute_tokens" "is_sign x"
  shows "complexMatch (c @ ''d'' @ s @ x # a) = (if s = [] then None else Some (c, s, Some (x # a), None))"
proof -
  have d: "\<not> is_digit CHR ''d''" by (simp add: is_digit_def)
  show ?thesis
    using token_shape[OF assms(3)] assms(3,4)
    by (simp add: complexMatch_def digits_then[OF assms(1) d] digits_then[OF assms(2) sign_not_digit[OF assms(4)]]
        signed_digits_def Let_def)
qed

lemma parse_attr:
  assumes "list_all is_digit c" "list_all is_digit s" "a \<in> set attribute_tokens" "is_sign x"
  shows "parseDiceExpression (c @ ''d'' @ s @ x # a) =
     (case (or_one (parseInt c), parseInt s) of
        (Finite n, Finite m) \<Rightarrow>
          if s \<noteq> [] \<and> in_bounds n m
          then Some \<lparr>count = n, sides = m, modifier = Finite 0,
                     attributeBonus = attribute_of_name (toUpperCase a)\<rparr>
          else None
      | _ \<Rightarrow> None)"
proof -
  have "list_all plain_char c" "list_all plain_char s"
    using assms(1,2) by (simp_all add: list_all_iff plain_digit)
  moreover have "plain_char CHR ''d''" by (simp add: plain_char_def)
  ultimately have "list_all plain_char (c @ ''d'' @ s @ x # a)"
    using plain_token[OF assms(3)] plain_sign[OF assms(4)] by simp
  then have clean: "remove_whitespace (toLowerCase (c @ ''d'' @ s @ x # a)) = c @ ''d'' @ s @ x # a"
    by (rule clean_plain)
  show ?thesis
    unfolding parseDiceExpression_def clean Let_def parse_basic_def parse_complex_def
      basicMatch_attr[OF assms] complexMatch_attr[OF assms]
    by (simp add: parse_modifier_def split: prod.splits number.splits)
qed

subsection \<open>Keys of the tokens, and the trace of a roll with advantage\<close>

lemma token_keys:
  "attribute_of_name (toUpperCase ''str'') = Some A_STR"
  "attribute_of_name (toUpperCase ''dex'') = Some A_DEX"
  "attribute_of_name (toUpperCase ''con'') = Some A_CON"
  "attribute_of_name (toUpperCase ''int'') = Some A_INT"
  "attribute_of_name (toUpperCase ''wis'') = Some A_WIS"
  "attribute_of_name (toUpperCase ''cha'') = Some A_CHA"
  by code_simp+

lemma token_key: "a \<in> set attribute_tokens \<Longrightarrow> attribute_of_name (toUpperCase a) \<noteq> None"
  unfolding token_cases using token_keys by (elim disjE) simp_all

lemma rollDice_same_parse:
  assumes "parseDiceExpression e1 = parseDiceExpression e2"
  shows "rollDice (req\<lparr>expression := e1\<rparr>) now g =
         map_prod (map_sum id (\<lambda>r. r\<lparr>res_expression := e1\<rparr>)) id
           (rollDice (req\<lparr>expression := e2\<rparr>) now g)"
proof (cases "parseDiceExpression e2")
  case None
  then show ?thesis using assms by (simp add: rollDice_def)
next
  case (Some p)
  have 1: "parseDiceExpression (expression (req\<lparr>expression := e1\<rparr>)) = Some p"
    using assms Some by simp
  have 2: "parseDiceExpression (expression (req\<lparr>expression := e2\<rparr>)) = Some p"
    using Some by simp
  show ?thesis
    unfolding rollDice_Some[OF 1] rollDice_Some[OF 2] by (simp add: Let_def)
qed

lemma pair_14_7: "pair_text 14 7 = ''(14, 7)''"
  by code_simp

lemma no_pair_in_trace:
  "\<not> sublist ''(14, 7)'' (''(Advantage) 1d20 '' @ arrow @ '' 14'')"
  "\<not> sublist ''(14, 7)'' (''(Disadvantage) 1d20 '' @ arrow @ '' 7'')"
  by code_simp+

lemma eval_advantage:
  "rollDice \<lparr>expression = ''1d20'', character = None, advantage = Some True,
             disadvantage = None, description = None\<rparr> now sample_source =
     (Inr \<lparr>res_expression = ''1d20'', rolls = [roll_entry 20 14], modifiers = [],
           total = Finite 14,
           details = ''(Advantage) 1d20 '' @ arrow @ '' 14'', timestamp = now\<rparr>,
      sconst 0)"
  by (simp add: rollDice_Some[where p = "\<lparr>count = 1, sides = 20, modifier = Finite 0,
         attributeBonus = None\<rparr>"]
       parse_d20 truthy_def roll_phase_advantage sample_source_def numeral_2_eq_2 faces
       roll_entry_def numeric_modifier_def attribute_bonus_def
       luck_bonus_def build_details_def modifier_text_def texts dadd_exact)

subsection \<open>The Web Crypto values, and the trace of the two-dice mode\<close>

lemma crypto_value_unit:
  "is_double (crypto_value k) \<and> 0 \<le> crypto_value k \<and> crypto_value k < 1"
proof -
  define n where "n = k mod 4294967296"
  have lt: "n < 4294967296" by (simp add: n_def)
  then have "real n < 4294967296" by (simp only: of_nat_less_numeral_iff)
  then have r: "0 \<le> crypto_value k \<and> crypto_value k < 1"
    by (simp add: crypto_value_def n_def)
  have "\<bar>int n\<bar> < 2 ^ 53" using lt by simp
  then have "is_double (of_int (int n) / 2 ^ 32)" by (rule is_double_frac) simp
  then have "is_double (crypto_value k)" by (simp add: crypto_value_def n_def)
  with r show ?thesis by simp
qed

lemma unit_source_crypto: "unit_source (smap crypto_value ks)"
  using crypto_value_unit by (auto simp: unit_source_def stream.set_map)

lemma foldl_append_text: "foldl (\<lambda>d m. d @ f m) d ms = d @ concat (map f ms)"
  by (induction ms arbitrary: d) simp_all

lemma build_details_single:
  "build_details p a d [r] ms =
     (if a then ''(Advantage) '' else if d then ''(Disadvantage) '' else []) @
     number_text (count p) @ ''d'' @ number_text (sides p) @ '' '' @ arrow @ '' '' @
     number_text (result r) @ concat (map modifier_text ms)"
  by (simp add: build_details_def Let_def foldl_append_text)

lemma two_dice_trace:
  assumes "parseDiceExpression (expression req) = Some p" and "two_dice_mode req p"
    and "rollDice req now g = (Inr res, g')"
  shows "\<exists>kept. rolls res = [roll_entry 20 kept] \<and>
           details res =
             (if truthy (advantage req) then ''(Advantage) '' else ''(Disadvantage) '') @
             ''1d20 '' @ arrow @ '' '' @ number_text kept @
             concat (map modifier_text (modifiers res))"
proof -
  define a where "a = (truthy (advantage req) \<and> sides p = 20 \<and> count p = 1)"
  define d where "d = (truthy (disadvantage req) \<and> sides p = 20 \<and> count p = 1)"
  have ad: "a \<or> d" "a = truthy (advantage req)" "sides p = 20" "count p = 1"
    using assms(2) by (auto simp: a_def d_def two_dice_mode_def)
  obtain kept g1 where
    ph: "roll_phase p a d g = ([roll_entry 20 kept], dadd (Finite 0) (Finite kept), g1)"
    using ad by (cases a) (auto simp: roll_phase_advantage roll_phase_disadvantage)
  have "rolls res = [roll_entry 20 kept]"
    "details res = build_details p a d [roll_entry 20 kept] (modifiers res)"
    using assms(3) unfolding rollDice_Some[OF assms(1)] Let_def a_def[symmetric] d_def[symmetric] ph
    by auto
  then show ?thesis
    using ad by (auto simp: build_details_single texts roll_entry_def)
qed

section \<open>The claims\<close>

text \<open>
  C1. The claim is that \<^verbatim>\<open>0d6\<close>, \<^verbatim>\<open>101d6\<close>, \<^verbatim>\<open>1d0\<close>, \<^verbatim>\<open>1d1001\<close> and
  \<^verbatim>\<open>abc\<close> all fail to parse. Four of them do. On \<^verbatim>\<open>0d6\<close> the count 0 is
  falsy, so \<^verbatim>\<open>parseInt(...) || 1\<close> replaces it by 1 before the bounds are checked,
  and the parser returns one six-sided die.
\<close>

theorem zero_count_parses_as_one:
  "parseDiceExpression ''0d6'' =
     Some \<lparr>count = 1, sides = 6, modifier = Finite 0, attributeBonus = None\<rparr> \<and>
   parseDiceExpression ''101d6'' = None \<and> parseDiceExpression ''1d0'' = None \<and>
   parseDiceExpression ''1d1001'' = None \<and> parseDiceExpression ''abc'' = None"
  by code_simp

text \<open>
  C2. The claim is that the trace of a roll with advantage or disadvantage records
  both draws. For a d20 with advantage and the draws 14 and 7, the helper
  \<^verbatim>\<open>rollWithAdvantage\<close> returns the text \<^verbatim>\<open>(14, 7)\<close> beside the kept value 14,
  but the trace that \<^verbatim>\<open>rollDice\<close> returns holds the kept value only; likewise
  with disadvantage and the kept value 7. (By \<open>two_dice_trace\<close> above, the trace
  of this mode is always a function of the kept value and the modifiers.)
\<close>

theorem advantage_trace_omits_the_two_draws:
  "rollWithAdvantage 20 sample_source = ((14, ''(14, 7)''), sconst 0) \<and>
   rollDice \<lparr>expression = ''1d20'', character = None, advantage = Some True,
             disadvantage = None, description = None\<rparr> 0 sample_source =
     (Inr \<lparr>res_expression = ''1d20'', rolls = [roll_entry 20 14], modifiers = [], total = Finite 14,
           details = ''(Advantage) 1d20 '' @ arrow @ '' 14'', timestamp = 0\<rparr>,
      sconst 0) \<and>
   \<not> sublist ''(14, 7)'' (''(Advantage) 1d20 '' @ arrow @ '' 14'') \<and>
   rollWithDisadvantage 20 sample_source = ((7, ''(14, 7)''), sconst 0) \<and>
   rollDice \<lparr>expression = ''1d20'', character = None, advantage = None,
             disadvantage = Some True, description = None\<rparr> 0 sample_source =
     (Inr \<lparr>res_expression = ''1d20'', rolls = [roll_entry 20 7], modifiers = [], total = Finite 7,
           details = ''(Disadvantage) 1d20 '' @ arrow @ '' 7'', timestamp = 0\<rparr>,
      sconst 0) \<and>
   \<not> sublist ''(14, 7)'' (''(Disadvantage) 1d20 '' @ arrow @ '' 7'')"
  using eval_advantage[of 0] eval_disadvantage[of 0] no_pair_in_trace pair_14_7
  by (simp add: rollWithAdvantage_def rollWithDisadvantage_def rollDie_eq sample_source_simps
      faces sample_source_def)

text \<open>
  C3. For a request whose expression parses, \<^verbatim>\<open>rollDice\<close> returns a result, and
  it rolls two dice and keeps one exactly when the die has 20 sides, the count is
  1 and one of the two flags is set. In that mode the source gives two draws and
  \<open>rolls\<close> has the single entry with the larger draw when the advantage flag is
  set, and with the smaller draw otherwise (that is, under disadvantage, the flags
  being exclusive). In every other case \<open>rolls\<close> has one entry for each of the
  count dice, in the order of the source; and unless the die has 20 sides and the
  count is 1, replacing the two flags by any others leaves the outcome unchanged.
\<close>

theorem advantage_mode_activation:
  assumes "parseDiceExpression (expression req) = Some p"
  shows "(\<exists>res. rollDice req now g =
             (Inr res, sdrop (if two_dice_mode req p then 2 else nat (count p)) g) \<and>
           rolls res =
             (if two_dice_mode req p then
                [roll_entry 20
                   (if truthy (advantage req)
                    then max (die_value 20 (g !! 0)) (die_value 20 (g !! 1))
                    else min (die_value 20 (g !! 0)) (die_value 20 (g !! 1)))]
              else map (\<lambda>u. roll_entry (sides p) (die_value (sides p) u))
                     (stake (nat (count p)) g))) \<and>
         (sides p = 20 \<and> count p = 1 \<or>
          rollDice (req\<lparr>advantage := a', disadvantage := d'\<rparr>) now g = rollDice req now g)"
proof -
  define a where "a = (truthy (advantage req) \<and> sides p = 20 \<and> count p = 1)"
  define d where "d = (truthy (disadvantage req) \<and> sides p = 20 \<and> count p = 1)"
  obtain res where res: "rollDice req now g = (Inr res, snd (snd (roll_phase p a d g)))"
      "rolls res = fst (roll_phase p a d g)"
    using rollDice_fields[OF assms, of now g] unfolding a_def d_def by blast
  consider (adv) "a" | (dis) "\<not> a" "d" | (normal) "\<not> a" "\<not> d" by blast
  then have "rollDice req now g =
             (Inr res, sdrop (if two_dice_mode req p then 2 else nat (count p)) g) \<and>
           rolls res =
             (if two_dice_mode req p then
                [roll_entry 20
                   (if truthy (advantage req)
                    then max (die_value 20 (g !! 0)) (die_value 20 (g !! 1))
                    else min (die_value 20 (g !! 0)) (die_value 20 (g !! 1)))]
              else map (\<lambda>u. roll_entry (sides p) (die_value (sides p) u))
                     (stake (nat (count p)) g))"
  proof cases
    case adv
    then have m: "two_dice_mode req p" "truthy (advantage req)" "sides p = 20"
      by (auto simp: a_def two_dice_mode_def)
    show ?thesis using res adv m by (simp add: roll_phase_advantage)
  next
    case dis
    then have m: "two_dice_mode req p" "\<not> truthy (advantage req)" "sides p = 20"
      by (auto simp: a_def d_def two_dice_mode_def)
    show ?thesis using res dis m by (simp add: roll_phase_disadvantage)
  next
    case normal
    then have m: "\<not> two_dice_mode req p"
      by (auto simp: a_def d_def two_dice_mode_def)
    show ?thesis using res normal m by (simp add: roll_phase_normal)
  qed
  moreover have "sides p = 20 \<and> count p = 1 \<or>
      rollDice (req\<lparr>advantage := a', disadvantage := d'\<rparr>) now g = rollDice req now g"
    using flags_without_effect[OF assms, where a' = a' and d' = d' and now = now and g = g]
    by auto
  ultimately show ?thesis by (intro conjI exI[of _ res]) simp_all
qed

theorem advantage_mode_activation_witness:
  "parseDiceExpression ''1d20'' = Some \<lparr>count = 1, sides = 20, modifier = Finite 0, attributeBonus = None\<rparr> \<and>
   (\<exists>res. rollDice \<lparr>expression = ''1d20'', character = None, advantage = None,
             disadvantage = Some True, description = None\<rparr> 0 sample_source = (Inr res, sconst 0) \<and>
          rolls res = [roll_entry 20 (min 14 7)]) \<and>
   parseDiceExpression ''2d6+1'' = Some \<lparr>count = 2, sides = 6, modifier = Finite 1, attributeBonus = None\<rparr> \<and>
   (\<exists>res. rollDice (plain_request ''2d6+1'') 0 sample_source = (Inr res, sconst 0) \<and>
          rolls res = [roll_entry 6 5, roll_entry 6 2]) \<and>
   rollDice ((plain_request ''2d6+1'')\<lparr>advantage := Some True, disadvantage := Some False\<rparr>) 0 sample_source =
     rollDice (plain_request ''2d6+1'') 0 sample_source"
proof -
  have p1: "parseDiceExpression (expression \<lparr>expression = ''1d20'', character = None, advantage = None,
             disadvantage = Some True, description = None\<rparr>) = Some \<lparr>count = 1, sides = 20, modifier = Finite 0, attributeBonus = None\<rparr>"
    by (simp add: parse_d20)
  have p2: "parseDiceExpression (expression (plain_request ''2d6+1'')) =
     Some \<lparr>count = 2, sides = 6, modifier = Finite 1, attributeBonus = None\<rparr>"
    by (simp add: plain_request_def parse_2d6)
  show ?thesis
    using advantage_mode_activation[OF p1, where now = 0 and g = sample_source]
      advantage_mode_activation[OF p2, where now = 0 and g = sample_source and a' = "Some True" and d' = "Some False"]
      parse_d20 parse_2d6
    by (simp add: two_dice_mode_def truthy_def faces sample_source_simps plain_request_def)
qed

text \<open>
  C4. The claim is that the total is the arithmetic sum of the results of the
  rolls and the values of the modifiers. The total of every result is the sum
  that the additions of the code give, taken from left to right over the rolls
  and then over the modifiers, each addition rounding to a double. It is the
  arithmetic sum whenever the values of the modifiers are the integers \<open>ms\<close>
  and no partial sum exceeds \<open>2^53\<close> in magnitude.
\<close>

theorem total_is_sum_in_double_precision:
  assumes "rollDice req now g = (Inr res, g')"
  shows "total res =
           foldl dadd (Finite 0)
             (map (\<lambda>r. Finite (result r)) (rolls res) @ map amount (modifiers res)) \<and>
         (map amount (modifiers res) = map Finite ms \<and>
          safe_sums 0 (map result (rolls res) @ ms) \<longrightarrow>
          total res = Finite (sum_list (map result (rolls res)) + sum_list ms))"
proof -
  obtain p where p: "parseDiceExpression (expression req) = Some p"
    using rollDice_Inr_parsed[OF assms] by blast
  define a where "a = (truthy (advantage req) \<and> sides p = 20 \<and> count p = 1)"
  define d where "d = (truthy (disadvantage req) \<and> sides p = 20 \<and> count p = 1)"
  define ph where "ph = roll_phase p a d g"
  define mt where "mt = luck_bonus (character req)
    (attribute_bonus p (character req) (numeric_modifier p ([], fst (snd ph))))"
  have res: "rolls res = fst ph" "modifiers res = fst mt" "total res = snd mt"
    using assms unfolding rollDice_Some[OF p] Let_def a_def d_def ph_def mt_def by auto
  have "fst (snd ph) = foldl dadd (Finite 0) (map (\<lambda>r. Finite (result r)) (fst ph))"
    using roll_phase_total[of p a d g "fst ph" "fst (snd ph)" "snd (snd ph)"]
    by (simp add: ph_def)
  moreover have "snd mt = foldl dadd (fst (snd ph)) (map amount (fst mt))"
    using modifiers_total[of "character req" p "fst (snd ph)" "fst mt" "snd mt"]
    by (simp add: mt_def)
  ultimately have sum: "total res =
      foldl dadd (Finite 0)
        (map (\<lambda>r. Finite (result r)) (rolls res) @ map amount (modifiers res))"
    by (simp add: res)
  have "total res = Finite (sum_list (map result (rolls res)) + sum_list ms)"
    if m: "map amount (modifiers res) = map Finite ms"
      and s: "safe_sums 0 (map result (rolls res) @ ms)"
  proof -
    have e: "map (\<lambda>r. Finite (result r)) (rolls res) @ map amount (modifiers res) =
        map Finite (map result (rolls res) @ ms)"
      by (simp add: m comp_def)
    have "foldl dadd (Finite 0) (map Finite (map result (rolls res) @ ms)) =
        Finite (0 + sum_list (map result (rolls res) @ ms))"
      by (rule foldl_dadd_exact[OF s])
    then show ?thesis
      unfolding sum e by simp
  qed
  with sum show ?thesis by blast
qed

theorem total_is_sum_in_double_precision_witness:
  "\<exists>res. rollDice (plain_request ''2d6+1'') 0 sample_source = (Inr res, sconst 0) \<and>
         map result (rolls res) = [5, 2] \<and> map amount (modifiers res) = map Finite [1] \<and>
         safe_sums 0 ([5, 2] @ [1]) \<and>
         total res = foldl dadd (Finite 0) [Finite 5, Finite 2, Finite 1] \<and>
         total res = Finite (sum_list [5, 2] + sum_list [1])"
  using total_is_sum_in_double_precision[OF eval_2d6[of 0], where ms = "[1]"] eval_2d6[of 0]
  by (simp add: roll_entry_def)

text \<open>
  The sum is not the arithmetic one for \<^verbatim>\<open>1d6+9007199254740992\<close>, which the
  parser accepts. With the face 5 the code adds 5 and \<open>2^53\<close>; the double nearest
  to \<open>2^53 + 5\<close> is \<open>2^53 + 4\<close>.
\<close>

theorem total_differs_from_sum_beyond_2_53:
  "\<exists>res. rollDice (plain_request ''1d6+9007199254740992'') 0 sample_source =
           (Inr res, stl sample_source) \<and>
         map result (rolls res) = [5] \<and>
         map amount (modifiers res) = [Finite 9007199254740992] \<and>
         total res = Finite 9007199254740996 \<and>
         total res \<noteq> Finite (sum_list [5] + sum_list [9007199254740992])"
  by (simp add: rollDice_Some[where p = "\<lparr>count = 1, sides = 6,
         modifier = Finite 9007199254740992, attributeBonus = None\<rparr>"]
       plain_request_def parse_large_modifier truthy_def roll_phase_normal sample_source_def
       faces roll_entry_def numeric_modifier_def attribute_bonus_def luck_bonus_def
       sum_beyond_2_53)

text \<open>
  C5. \<^verbatim>\<open>rollDice\<close> fails exactly when the parser fails on the expression of the
  request. It then fails with \<open>InvalidExpression\<close> and the random source is
  returned untouched. When the expression parses, \<^verbatim>\<open>rollDice\<close> returns a result
  that carries the expression and the time stamp of the call and as many rolls as
  the mode asks for.
\<close>

theorem invalid_expression_is_the_only_failure:
  "((\<exists>e. fst (rollDice req now g) = Inl e) \<longleftrightarrow> parseDiceExpression (expression req) = None) \<and>
   (parseDiceExpression (expression req) = None \<longrightarrow>
      rollDice req now g = (Inl InvalidExpression, g)) \<and>
   (\<forall>p. parseDiceExpression (expression req) = Some p \<longrightarrow>
      (\<exists>res g'. rollDice req now g = (Inr res, g') \<and> res_expression res = expression req \<and>
         timestamp res = now \<and>
         length (rolls res) = (if two_dice_mode req p then 1 else nat (count p))))"
proof (cases "parseDiceExpression (expression req)")
  case None
  then show ?thesis using rollDice_None[OF None, of now g] by simp
next
  case (Some p)
  obtain res where res: "rollDice req now g =
            (Inr res,
             snd (snd (roll_phase p (truthy (advantage req) \<and> sides p = 20 \<and> count p = 1)
                (truthy (disadvantage req) \<and> sides p = 20 \<and> count p = 1) g)))"
          "rolls res = fst (roll_phase p (truthy (advantage req) \<and> sides p = 20 \<and> count p = 1)
                (truthy (disadvantage req) \<and> sides p = 20 \<and> count p = 1) g)"
          "res_expression res = expression req" "timestamp res = now"
    using rollDice_fields[OF Some, of now g] by blast
  have "length (rolls res) = (if two_dice_mode req p then 1 else nat (count p))"
    unfolding res(2) roll_phase_length two_dice_mode_def by auto
  with res Some show ?thesis by auto
qed

theorem invalid_expression_is_the_only_failure_witness:
  "parseDiceExpression (expression (plain_request ''abc'')) = None \<and>
   rollDice (plain_request ''abc'') 0 sample_source = (Inl InvalidExpression, sample_source) \<and>
   parseDiceExpression (expression (plain_request ''2d6+1'')) = Some \<lparr>count = 2, sides = 6, modifier = Finite 1, attributeBonus = None\<rparr> \<and>
   (\<exists>res g'. rollDice (plain_request ''2d6+1'') 0 sample_source = (Inr res, g') \<and>
       res_expression res = ''2d6+1'' \<and> timestamp res = 0 \<and> length (rolls res) = 2)"
proof -
  have p1: "parseDiceExpression (expression (plain_request ''abc'')) = None"
    by (simp add: plain_request_def parse_abc)
  have p2: "parseDiceExpression (expression (plain_request ''2d6+1'')) =
     Some \<lparr>count = 2, sides = 6, modifier = Finite 1, attributeBonus = None\<rparr>"
    by (simp add: plain_request_def parse_2d6)
  show ?thesis
    using invalid_expression_is_the_only_failure[of "plain_request ''abc''" 0 sample_source]
      invalid_expression_is_the_only_failure[of "plain_request ''2d6+1''" 0 sample_source] p1 p2
    by (simp add: two_dice_mode_def plain_request_def)
qed

text \<open>
  C6. The ability modifier of a score is the floor of \<open>(score - 10) / 2\<close>: it is
  the quotient of the division that rounds toward minus infinity, so twice the
  modifier is at most \<open>score - 10\<close> and more than \<open>score - 12\<close>; the
  scores 10, 11, 12, 8, 7, 20 and 3 give 0, 0, 1, -1, -2, 5 and -4. The modifiers of
  a result are the numeric modifier when it is not 0, then the entry
  \<^verbatim>\<open><ATTR> Bonus\<close> with the ability modifier of the character's score, present
  only when the expression has an attribute token and the request has a
  character, then the luck bonus.
\<close>

theorem attribute_bonus_is_floor_division:
  assumes "rollDice req now g = (Inr res, g')"
    and "parseDiceExpression (expression req) = Some p"
  shows "calculateModifier score = (score - 10) div 2 \<and>
         2 * calculateModifier score \<le> score - 10 \<and>
         score - 10 < 2 * calculateModifier score + 2 \<and>
         map calculateModifier [10, 11, 12, 8, 7, 20, 3] = [0, 0, 1, - 1, - 2, 5, - 4] \<and>
         modifiers res =
           (if modifier p = Finite 0 then [] else [\<lparr>name = ''Modifier'', amount = modifier p\<rparr>]) @
           (case (attributeBonus p, character req) of
              (Some a, Some c) \<Rightarrow>
                [\<lparr>name = attribute_name a @ '' Bonus'',
                  amount = Finite (calculateModifier (basicAttributes c a))\<rparr>]
            | _ \<Rightarrow> []) @
           (case character req of
              None \<Rightarrow> []
            | Some c \<Rightarrow>
                if luck (resources c) then [\<lparr>name = ''Luck Bonus'', amount = Finite 1\<rparr>] else [])"
proof -
  have 1: "calculateModifier score = (score - 10) div 2" by (rule calculateModifier_div)
  have 2: "2 * calculateModifier score \<le> score - 10 \<and> score - 10 < 2 * calculateModifier score + 2"
    unfolding 1 by presburger
  have 3: "map calculateModifier [10, 11, 12, 8, 7, 20, 3] = [0, 0, 1, - 1, - 2, 5, - 4]"
    by (simp add: calculateModifier_div)
  have "modifiers res = fst (luck_bonus (character req)
          (attribute_bonus p (character req) (numeric_modifier p ([],
             fst (snd (roll_phase p (truthy (advantage req) \<and> sides p = 20 \<and> count p = 1)
                (truthy (disadvantage req) \<and> sides p = 20 \<and> count p = 1) g))))))"
    using assms(1) unfolding rollDice_Some[OF assms(2)] Let_def by auto
  then have 4: "modifiers res =
           (if modifier p = Finite 0 then [] else [\<lparr>name = ''Modifier'', amount = modifier p\<rparr>]) @
           (case (attributeBonus p, character req) of
              (Some a, Some c) \<Rightarrow>
                [\<lparr>name = attribute_name a @ '' Bonus'',
                  amount = Finite (calculateModifier (basicAttributes c a))\<rparr>]
            | _ \<Rightarrow> []) @
           (case character req of
              None \<Rightarrow> []
            | Some c \<Rightarrow>
                if luck (resources c) then [\<lparr>name = ''Luck Bonus'', amount = Finite 1\<rparr>] else [])"
    by (simp only: modifiers_explicit calculateModifier_div)
  from 1 2 3 4 show ?thesis by blast
qed

theorem attribute_bonus_is_floor_division_witness:
  "rollDice \<lparr>expression = ''1d20+str'', character = Some sample_character,
             advantage = Some True, disadvantage = Some True, description = None\<rparr>
     0 sample_source =
     (Inr \<lparr>res_expression = ''1d20+str'', rolls = [roll_entry 20 14],
           modifiers = [\<lparr>name = ''STR Bonus'', amount = Finite (- 1)\<rparr>,
                        \<lparr>name = ''Luck Bonus'', amount = Finite 1\<rparr>],
           total = Finite 14,
           details = ''(Advantage) 1d20 '' @ arrow @ '' 14 -1 (STR Bonus) +1 (Luck Bonus)'',
           timestamp = 0\<rparr>,
      sconst 0) \<and>
   parseDiceExpression ''1d20+str'' =
     Some \<lparr>count = 1, sides = 20, modifier = Finite 0, attributeBonus = Some A_STR\<rparr> \<and>
   basicAttributes sample_character A_STR = 8 \<and>
   calculateModifier 8 = (8 - 10) div 2 \<and>
   [\<lparr>name = ''STR Bonus'', amount = Finite (- 1)\<rparr>, \<lparr>name = ''Luck Bonus'', amount = Finite 1\<rparr>] =
     [\<lparr>name = attribute_name A_STR @ '' Bonus'', amount = Finite (calculateModifier 8)\<rparr>,
      \<lparr>name = ''Luck Bonus'', amount = Finite 1\<rparr>]"
proof -
  let ?r = "\<lparr>expression = ''1d20+str'', character = Some sample_character,
             advantage = Some True, disadvantage = Some True, description = None\<rparr>"
  have p: "parseDiceExpression (expression ?r) =
      Some \<lparr>count = 1, sides = 20, modifier = Finite 0, attributeBonus = Some A_STR\<rparr>"
    by (simp add: parse_d20_str)
  have score: "basicAttributes sample_character A_STR = 8"
    by (simp add: sample_character_def)
  have lucky: "luck (resources sample_character)"
    by (simp add: sample_character_def)
  note t = attribute_bonus_is_floor_division[OF eval_both_flags[of 0] p, of 8]
  note m = t[THEN conjunct2, THEN conjunct2, THEN conjunct2, THEN conjunct2]
  have "[\<lparr>name = ''STR Bonus'', amount = Finite (- 1)\<rparr>, \<lparr>name = ''Luck Bonus'', amount = Finite 1\<rparr>] =
     [\<lparr>name = attribute_name A_STR @ '' Bonus'', amount = Finite (calculateModifier 8)\<rparr>,
      \<lparr>name = ''Luck Bonus'', amount = Finite 1\<rparr>]"
    using m by (simp add: score lucky)
  with t[THEN conjunct1] eval_both_flags[of 0] parse_d20_str score show ?thesis
    by (intro conjI)
qed

text \<open>
  C7. When the random source yields doubles from 0 up to but excluding 1, a roll
  of an expression that parses with \<open>S\<close> sides returns a result in which every
  entry of \<open>rolls\<close> has a result between 1 and \<open>S\<close>, is flagged as maximum exactly
  when the result is \<open>S\<close> and as minimum exactly when the result is 1. The product
  of a value of the source and \<open>S\<close> is rounded to a double before its floor is
  taken; it stays below \<open>S\<close> because the largest double below 1 is \<open>1 - 2^(- 53)\<close>.
\<close>

theorem every_roll_in_range:
  assumes "parseDiceExpression (expression req) = Some p" and "unit_source g"
  shows "\<exists>res g'. rollDice req now g = (Inr res, g') \<and>
           (\<forall>r \<in> set (rolls res).
              1 \<le> result r \<and> result r \<le> sides p \<and>
              (isMax r \<longleftrightarrow> result r = sides p) \<and> (isMin r \<longleftrightarrow> result r = 1))"
proof -
  have s: "1 \<le> sides p" using parse_range[OF assms(1)] by simp
  obtain res where res:
    "rollDice req now g =
       (Inr res,
        snd (snd (roll_phase p (truthy (advantage req) \<and> sides p = 20 \<and> count p = 1)
           (truthy (disadvantage req) \<and> sides p = 20 \<and> count p = 1) g)))"
    "rolls res = fst (roll_phase p (truthy (advantage req) \<and> sides p = 20 \<and> count p = 1)
           (truthy (disadvantage req) \<and> sides p = 20 \<and> count p = 1) g)"
    using rollDice_fields[OF assms(1), of now g] by blast
  have "\<forall>r \<in> set (rolls res).
          1 \<le> result r \<and> result r \<le> sides p \<and>
          (isMax r \<longleftrightarrow> result r = sides p) \<and> (isMin r \<longleftrightarrow> result r = 1)"
    unfolding res(2) using roll_phase_range[OF assms(2) s] by (intro ballI)
  with res(1) show ?thesis by (intro exI conjI)
qed

theorem every_roll_in_range_witness:
  "parseDiceExpression (expression (plain_request ''2d6+1'')) =
     Some \<lparr>count = 2, sides = 6, modifier = Finite 1, attributeBonus = None\<rparr> \<and>
   unit_source sample_source \<and>
   (\<exists>res g'. rollDice (plain_request ''2d6+1'') 0 sample_source = (Inr res, g') \<and>
      (\<forall>r \<in> set (rolls res).
         1 \<le> result r \<and> result r \<le> 6 \<and>
         (isMax r \<longleftrightarrow> result r = 6) \<and> (isMin r \<longleftrightarrow> result r = 1)))"
proof -
  have p: "parseDiceExpression (expression (plain_request ''2d6+1'')) =
     Some \<lparr>count = 2, sides = 6, modifier = Finite 1, attributeBonus = None\<rparr>"
    by (simp add: plain_request_def parse_2d6)
  show ?thesis
    using every_roll_in_range[OF p unit_sample_source, of 0] p unit_sample_source by simp
qed

text \<open>
  C8. For every string of digits (possibly empty) as count, every string of digits
  as sides and every attribute token among \<^verbatim>\<open>str\<close>, \<^verbatim>\<open>dex\<close>, \<^verbatim>\<open>con\<close>,
  \<^verbatim>\<open>int\<close>, \<^verbatim>\<open>wis\<close> and \<^verbatim>\<open>cha\<close>, the parser returns on
  \<^verbatim>\<open><count>d<sides>-<attr>\<close> what it returns on \<^verbatim>\<open><count>d<sides>+<attr>\<close>. When
  it succeeds, the attribute bonus is the key of the token and the numeric
  modifier is 0, so the sign before the token is discarded; and a roll of the
  expression with the minus sign is the roll of the expression with the plus
  sign, up to the expression that the result echoes.
\<close>

theorem attribute_sign_is_discarded:
  assumes "list_all is_digit c" and "list_all is_digit s" and "a \<in> set attribute_tokens"
  shows "parseDiceExpression (c @ ''d'' @ s @ ''-'' @ a) =
           parseDiceExpression (c @ ''d'' @ s @ ''+'' @ a) \<and>
         (\<forall>p. parseDiceExpression (c @ ''d'' @ s @ ''-'' @ a) = Some p \<longrightarrow>
            attributeBonus p = attribute_of_name (toUpperCase a) \<and>
            attributeBonus p \<noteq> None \<and> modifier p = Finite 0) \<and>
         rollDice (req\<lparr>expression := c @ ''d'' @ s @ ''-'' @ a\<rparr>) now g =
           map_prod (map_sum id (\<lambda>r. r\<lparr>res_expression := c @ ''d'' @ s @ ''-'' @ a\<rparr>)) id
             (rollDice (req\<lparr>expression := c @ ''d'' @ s @ ''+'' @ a\<rparr>) now g)"
proof -
  have minus: "is_sign CHR ''-''" and plus: "is_sign CHR ''+''"
    by (simp_all add: is_sign_def)
  note m = parse_attr[OF assms minus] and p = parse_attr[OF assms plus]
  have same: "parseDiceExpression (c @ ''d'' @ s @ ''-'' @ a) =
           parseDiceExpression (c @ ''d'' @ s @ ''+'' @ a)"
    using m p by simp
  have key: "\<forall>p. parseDiceExpression (c @ ''d'' @ s @ ''-'' @ a) = Some p \<longrightarrow>
            attributeBonus p = attribute_of_name (toUpperCase a) \<and>
            attributeBonus p \<noteq> None \<and> modifier p = Finite 0"
    using m token_key[OF assms(3)]
    by (auto split: option.splits prod.splits number.splits if_splits)
  from same key rollDice_same_parse[OF same] show ?thesis by blast
qed

theorem attribute_sign_is_discarded_witness:
  "list_all is_digit ''1'' \<and> list_all is_digit ''20'' \<and> ''str'' \<in> set attribute_tokens \<and>
   parseDiceExpression ''1d20-str'' = parseDiceExpression ''1d20+str'' \<and>
   parseDiceExpression ''1d20-str'' =
     Some \<lparr>count = 1, sides = 20, modifier = Finite 0, attributeBonus = Some A_STR\<rparr> \<and>
   attribute_of_name (toUpperCase ''str'') = Some A_STR"
proof -
  have h: "list_all is_digit ''1''" "list_all is_digit ''20''" "''str'' \<in> set attribute_tokens"
    by (simp_all add: is_digit_def attribute_tokens_def)
  have k: "attribute_of_name (toUpperCase ''str'') = Some A_STR" by (rule token_keys)
  note t = attribute_sign_is_discarded[OF h]
  have "parseDiceExpression ''1d20-str'' = parseDiceExpression ''1d20+str''"
    using t[THEN conjunct1] by simp
  with h k parse_d20_str show ?thesis by simp
qed


text \<open>
  C10. When the expression parses to one die of 20 sides and both the advantage
  and the disadvantage flag are true, \<^verbatim>\<open>rollDice\<close> consumes two draws, \<open>rolls\<close> is
  the single entry with the larger draw, the trace starts with the tag
  \<^verbatim>\<open>(Advantage) \<close>, and the outcome does not depend on the disadvantage flag.
\<close>

theorem both_flags_is_advantage:
  assumes "parseDiceExpression (expression req) = Some p"
    and "sides p = 20" and "count p = 1"
    and "advantage req = Some True" and "disadvantage req = Some True"
  shows "(\<exists>res. rollDice req now g = (Inr res, sdrop 2 g) \<and>
            rolls res = [roll_entry 20 (max (die_value 20 (g !! 0)) (die_value 20 (g !! 1)))] \<and>
            prefix ''(Advantage) '' (details res)) \<and>
         rollDice (req\<lparr>disadvantage := d'\<rparr>) now g = rollDice req now g"
proof -
  have a: "(truthy (advantage req) \<and> sides p = 20 \<and> count p = 1) = True"
    using assms by (simp add: truthy_def)
  have p': "parseDiceExpression (expression (req\<lparr>disadvantage := d'\<rparr>)) = Some p"
    using assms(1) by simp
  have 1: "rollDice (req\<lparr>disadvantage := d'\<rparr>) now g = rollDice req now g"
    unfolding rollDice_Some[OF p'] rollDice_Some[OF assms(1)] using a
    by (simp add: Let_def roll_phase_advantage build_details_def)
  have 2: "\<exists>res. rollDice req now g = (Inr res, sdrop 2 g) \<and>
            rolls res = [roll_entry 20 (max (die_value 20 (g !! 0)) (die_value 20 (g !! 1)))] \<and>
            prefix ''(Advantage) '' (details res)"
    unfolding rollDice_Some[OF assms(1)] Let_def a
    using build_details_advantage assms(2) by (simp add: roll_phase_advantage)
  from 1 2 show ?thesis by blast
qed

theorem both_flags_is_advantage_witness:
  "parseDiceExpression ''1d20+str'' = Some \<lparr>count = 1, sides = 20, modifier = Finite 0, attributeBonus = Some A_STR\<rparr> \<and>
   (\<exists>res. rollDice \<lparr>expression = ''1d20+str'', character = Some sample_character,
             advantage = Some True, disadvantage = Some True, description = None\<rparr> 0 sample_source = (Inr res, sconst 0) \<and>
          rolls res = [roll_entry 20 (max 14 7)] \<and> prefix ''(Advantage) '' (details res)) \<and>
   rollDice \<lparr>expression = ''1d20+str'', character = Some sample_character,
             advantage = Some True, disadvantage = None, description = None\<rparr> 0 sample_source =
   rollDice \<lparr>expression = ''1d20+str'', character = Some sample_character,
             advantage = Some True, disadvantage = Some True, description = None\<rparr> 0 sample_source"
proof -
  let ?r = "\<lparr>expression = ''1d20+str'', character = Some sample_character,
             advantage = Some True, disadvantage = Some True, description = None\<rparr>"
  have p: "parseDiceExpression (expression ?r) = Some \<lparr>count = 1, sides = 20, modifier = Finite 0, attributeBonus = Some A_STR\<rparr>"
    by (simp add: parse_d20_str)
  show ?thesis
    using both_flags_is_advantage[OF p, where now = 0 and g = sample_source and d' = None] parse_d20_str
    by (simp add: faces sample_source_simps)
qed

end
